theory Spec2Isabelle
  imports Main "HOL-Library.Sublist" "HOL-Library.Word"
begin

section \<open>Strings and bytes\<close>

text \<open>
  Document text, paths and messages are \<^typ>\<open>string\<close>. Every character the code
  inspects (\<open>!\<close>, \<open>[\<close>, \<open>]\<close>, \<open>(\<close>, \<open>)\<close>, \<open>?\<close>, \<open>#\<close>, \<open>.\<close>, \<open>/\<close>, \<open>$\<close>)
  is ASCII, and an ASCII byte never occurs inside a multi-byte UTF-8 sequence, so
  splitting and searching give the same pieces on bytes as on UTF-16 units.
  \<open>String.prototype.startsWith\<close> is \<^const>\<open>prefix\<close> and \<open>endsWith\<close> is
  \<^const>\<open>suffix\<close>. A \<open>Buffer\<close> is a list of 8-bit words.
\<close>

type_synonym byte = "8 word"

text \<open>\<open>toLowerCase\<close> on the letters \<open>A\<close>..\<open>Z\<close>; the extensions compared against are ASCII.\<close>

definition lowerChar :: "char \<Rightarrow> char" where
  "lowerChar c =
     (case map_of (zip ''ABCDEFGHIJKLMNOPQRSTUVWXYZ'' ''abcdefghijklmnopqrstuvwxyz'') c of
        Some d \<Rightarrow> d
      | None \<Rightarrow> c)"

definition toLowerCase :: "string \<Rightarrow> string" where
  "toLowerCase s = map lowerChar s"

section \<open>Node's \<open>path\<close> module (POSIX flavour)\<close>

text \<open>The last path component, trailing separators ignored.\<close>

definition lastComponent :: "string \<Rightarrow> string" where
  "lastComponent p =
     rev (takeWhile (\<lambda>c. c \<noteq> CHR ''/'') (dropWhile (\<lambda>c. c = CHR ''/'') (rev p)))"

text \<open>
  \<open>path.extname\<close>: from the last dot of the last component to its end; empty when
  there is no dot, when that dot opens the component, or when the component is \<open>..\<close>.
\<close>

definition extname :: "string \<Rightarrow> string" where
  "extname p =
     (let comp = lastComponent p;
          afterDot = rev (takeWhile (\<lambda>c. c \<noteq> CHR ''.'') (rev comp))
      in if CHR ''.'' \<notin> set comp then []
         else if Suc (length afterDot) = length comp then []
         else if comp = ''..'' then []
         else CHR ''.'' # afterDot)"

definition isAbsolute :: "string \<Rightarrow> bool" where
  "isAbsolute p = (case p of [] \<Rightarrow> False | c # _ \<Rightarrow> c = CHR ''/'')"

text \<open>
  \<open>path.dirname\<close>: drop trailing separators and the last component, then the one
  separator before it; \<open>/\<close> or \<open>.\<close> when nothing is left, \<open>//\<close> for two leading
  separators.
\<close>

definition dirname :: "string \<Rightarrow> string" where
  "dirname p =
     (if p = [] then ''.''
      else let hasRoot = (hd p = CHR ''/'');
               body = dropWhile (\<lambda>c. c \<noteq> CHR ''/'')
                        (dropWhile (\<lambda>c. c = CHR ''/'') (rev (tl p)))
           in if body = [] then (if hasRoot then ''/'' else ''.'')
              else if hasRoot \<and> length body = 1 then ''//''
              else hd p # rev (tl body))"

fun segments :: "string \<Rightarrow> string \<Rightarrow> string list" where
  "segments acc [] = [rev acc]"
| "segments acc (c # cs) =
     (if c = CHR ''/'' then rev acc # segments [] cs else segments (c # acc) cs)"

fun normalizeSegments :: "string list \<Rightarrow> string list \<Rightarrow> string list" where
  "normalizeSegments st [] = rev st"
| "normalizeSegments st (s # ss) =
     (if s = [] \<or> s = ''.'' then normalizeSegments st ss
      else if s = ''..'' then normalizeSegments (tl st) ss
      else normalizeSegments (s # st) ss)"

fun joinSegments :: "string list \<Rightarrow> string" where
  "joinSegments [] = []"
| "joinSegments [s] = s"
| "joinSegments (s # t # ss) = s @ CHR ''/'' # joinSegments (t # ss)"

text \<open>
  \<open>path.resolve(dir, p)\<close> for a working directory \<open>cwd\<close> that is absolute: the
  rightmost absolute argument starts the path, the rest is appended and normalised.
\<close>

definition resolve :: "string \<Rightarrow> string \<Rightarrow> string \<Rightarrow> string" where
  "resolve cwd dir p =
     (let full = (if isAbsolute p then p
                  else if isAbsolute dir then dir @ ''/'' @ p
                  else cwd @ ''/'' @ dir @ ''/'' @ p)
      in CHR ''/'' # joinSegments (normalizeSegments [] (segments [] full)))"

section \<open>Base64 (\<open>Buffer.toString('base64')\<close>)\<close>

text \<open>
  The standard alphabet of RFC 4648 with \<open>=\<close> padding, which is what Node writes.
  Three bytes give four characters of six bits each.
\<close>

definition base64Alphabet :: string where
  "base64Alphabet = ''ABCDEFGHIJKLMNOPQRSTUVWXYZabcdefghijklmnopqrstuvwxyz0123456789+/''"

definition base64Char :: "nat \<Rightarrow> char" where
  "base64Char n = base64Alphabet ! n"

fun indexOf :: "'a \<Rightarrow> 'a list \<Rightarrow> nat option" where
  "indexOf x [] = None"
| "indexOf x (y # ys) = (if x = y then Some 0 else map_option Suc (indexOf x ys))"

definition base64Index :: "char \<Rightarrow> nat option" where
  "base64Index c = indexOf c base64Alphabet"

fun base64Encode :: "byte list \<Rightarrow> string" where
  "base64Encode [] = []"
| "base64Encode [a] =
     (let x = unat a
      in [base64Char (x div 4), base64Char ((x mod 4) * 16), CHR ''='', CHR ''=''])"
| "base64Encode [a, b] =
     (let x = unat a; y = unat b
      in [base64Char (x div 4), base64Char ((x mod 4) * 16 + y div 16),
          base64Char ((y mod 16) * 4), CHR ''=''])"
| "base64Encode (a # b # c # rest) =
     (let x = unat a; y = unat b; z = unat c
      in [base64Char (x div 4), base64Char ((x mod 4) * 16 + y div 16),
          base64Char ((y mod 16) * 4 + z div 64), base64Char (z mod 64)]
         @ base64Encode rest)"

text \<open>
  The decoder of the round trip: four characters at a time, the last group may end in
  one or two \<open>=\<close>; anything else is rejected.
\<close>

fun base64Decode :: "string \<Rightarrow> byte list option" where
  "base64Decode [] = Some []"
| "base64Decode (c1 # c2 # c3 # c4 # rest) =
     (case (base64Index c1, base64Index c2) of
        (Some i, Some j) \<Rightarrow>
          (if rest = [] \<and> c4 = CHR ''='' then
             (if c3 = CHR ''='' then Some [of_nat (i * 4 + j div 16)]
              else (case base64Index c3 of
                      Some k \<Rightarrow> Some [of_nat (i * 4 + j div 16), of_nat ((j mod 16) * 16 + k div 4)]
                    | None \<Rightarrow> None))
           else (case (base64Index c3, base64Index c4) of
                   (Some k, Some l) \<Rightarrow>
                     map_option
                       (\<lambda>bs. of_nat (i * 4 + j div 16) # of_nat ((j mod 16) * 16 + k div 4)
                              # of_nat ((k mod 4) * 64 + l) # bs)
                       (base64Decode rest)
                 | _ \<Rightarrow> None))
      | _ \<Rightarrow> None)"
| "base64Decode _ = None"

section \<open>Image codec (\<open>imageUtils.ts\<close>)\<close>

definition MIME_TYPES :: "(string \<times> string) list" where
  "MIME_TYPES =
     [(''.jpg'', ''image/jpeg''),
      (''.jpeg'', ''image/jpeg''),
      (''.png'', ''image/png''),
      (''.gif'', ''image/gif''),
      (''.svg'', ''image/svg+xml''),
      (''.webp'', ''image/webp''),
      (''.bmp'', ''image/bmp''),
      (''.ico'', ''image/x-icon''),
      (''.tiff'', ''image/tiff''),
      (''.tif'', ''image/tiff'')]"

definition SUPPORTED_IMAGE_EXTENSIONS :: "string list" where
  "SUPPORTED_IMAGE_EXTENSIONS = map fst MIME_TYPES"

definition isImageFile :: "string \<Rightarrow> bool" where
  "isImageFile filePath = (map_of MIME_TYPES (toLowerCase (extname filePath)) \<noteq> None)"

definition getImageMimeType :: "string \<Rightarrow> string option" where
  "getImageMimeType filePath = map_of MIME_TYPES (toLowerCase (extname filePath))"

definition generateDataUri :: "byte list \<Rightarrow> string \<Rightarrow> string" where
  "generateDataUri imageBuffer mimeType =
     ''data:'' @ mimeType @ '';base64,'' @ base64Encode imageBuffer"

definition generateDataUriFromPath :: "byte list \<Rightarrow> string \<Rightarrow> string option" where
  "generateDataUriFromPath imageBuffer filePath =
     (case getImageMimeType filePath of
        None \<Rightarrow> None
      | Some mimeType \<Rightarrow> Some (generateDataUri imageBuffer mimeType))"

record ImageConversionResult =
  success :: bool
  dataUri :: "string option"
  error :: "string option"

text \<open>
  The file system as the codec sees it: \<open>None\<close> when \<open>access\<close> with \<open>F_OK | R_OK\<close> is
  refused, otherwise what \<open>readFile\<close> does: the bytes, or the message it throws.
\<close>

datatype fentry = Readable "byte list" | ReadFails string

type_synonym filesystem = "string \<Rightarrow> fentry option"

definition fileExists :: "filesystem \<Rightarrow> string \<Rightarrow> bool" where
  "fileExists fs filePath = (fs filePath \<noteq> None)"

definition failed :: "string \<Rightarrow> ImageConversionResult" where
  "failed errorMsg = \<lparr>success = False, dataUri = None, error = Some errorMsg\<rparr>"

definition convertImageToBase64 :: "filesystem \<Rightarrow> string \<Rightarrow> ImageConversionResult" where
  "convertImageToBase64 fs imagePath =
     (if \<not> fileExists fs imagePath then
        failed (''Image file not found or not readable: '' @ imagePath)
      else if \<not> isImageFile imagePath then
        failed (''Unsupported image format: '' @ imagePath)
      else (case fs imagePath of
              Some (Readable imageBuffer) \<Rightarrow>
                (case generateDataUriFromPath imageBuffer imagePath of
                   None \<Rightarrow> failed (''Failed to generate data URI for: '' @ imagePath)
                 | Some uri \<Rightarrow> \<lparr>success = True, dataUri = Some uri, error = None\<rparr>)
            | Some (ReadFails msg) \<Rightarrow>
                failed (''Failed to read image file '' @ imagePath @ '': '' @ msg)
            | None \<Rightarrow> failed (''Image file not found or not readable: '' @ imagePath)))"

section \<open>Markdown rewriter (\<open>markdownProcessor.ts\<close>)\<close>

record imageMatch =
  originalMarkdown :: string
  altText :: string
  imagePath :: string

record IImageReference = imageMatch +
  absoluteImagePath :: string

text \<open>
  \<open>IMAGE_REGEX = /!\[([^\]]*)\]\(([^)]+)\)/g\<close> anchored at the head of \<open>s\<close>. Both
  character classes exclude the character that must follow them, so the greedy run is
  the only candidate and backtracking finds nothing else. The result is the two groups
  and the text after the match.
\<close>

definition matchImageAt :: "string \<Rightarrow> (string \<times> string \<times> string) option" where
  "matchImageAt s =
     (case s of
        c1 # c2 # r \<Rightarrow>
          (if c1 = CHR ''!'' \<and> c2 = CHR ''['' then
             (case dropWhile (\<lambda>c. c \<noteq> CHR '']'') r of
                b1 # b2 # r2 \<Rightarrow>
                  (if b2 = CHR ''('' then
                     (let p = takeWhile (\<lambda>c. c \<noteq> CHR '')'') r2;
                          r3 = dropWhile (\<lambda>c. c \<noteq> CHR '')'') r2
                      in if p \<noteq> [] \<and> r3 \<noteq> []
                         then Some (takeWhile (\<lambda>c. c \<noteq> CHR '']'') r, p, tl r3)
                         else None)
                   else None)
              | _ \<Rightarrow> None)
           else None)
      | _ \<Rightarrow> None)"

text \<open>
  The \<open>while ((match = IMAGE_REGEX.exec(content)) !== null)\<close> loop: the leftmost match
  from the current position, then on from the end of that match.
\<close>

function findImages :: "string \<Rightarrow> imageMatch list" where
  "findImages [] = []"
| "findImages (c # cs) =
     (case matchImageAt (c # cs) of
        Some (a, p, rest) \<Rightarrow>
          \<lparr>originalMarkdown = ''!['' @ a @ '']('' @ p @ '')'', altText = a, imagePath = p\<rparr>
            # findImages rest
      | None \<Rightarrow> findImages cs)"
  by pat_completeness auto
termination
proof (relation "measure length")
  show "wf (measure length)" by simp
next
  fix c :: char and cs :: string
  show "(cs, c # cs) \<in> measure length" by simp
next
  fix c :: char and cs :: string and x a y p rest
  assume m: "matchImageAt (c # cs) = Some x" and x: "(a, y) = x" and y: "(p, rest) = y"
  have d: "length (dropWhile P xs) \<le> length xs" for P and xs :: string
    by (rule length_dropWhile_le)
  from m x y obtain c2 r b1 b2 r2 where
    s: "c # cs = c # c2 # r" and
    r: "dropWhile (\<lambda>c. c \<noteq> CHR '']'') r = b1 # b2 # r2" and
    rest: "rest = tl (dropWhile (\<lambda>c. c \<noteq> CHR '')'') r2)"
    by (auto simp: matchImageAt_def Let_def split: list.splits if_splits)
  have "length rest \<le> length r2"
    using d[of "\<lambda>c. c \<noteq> CHR '')''" r2] by (simp add: rest)
  moreover have "length r2 < length r"
    using d[of "\<lambda>c. c \<noteq> CHR '']''" r] by (simp add: r)
  ultimately show "(rest, c # cs) \<in> measure length" using s by simp
qed

definition isRemoteImage :: "string \<Rightarrow> bool" where
  "isRemoteImage path = (prefix ''http://'' path \<or> prefix ''https://'' path)"

definition extractImageReferences :: "string \<Rightarrow> string \<Rightarrow> string \<Rightarrow> IImageReference list" where
  "extractImageReferences cwd content markdownFilePath =
     (let markdownDir = dirname markdownFilePath
      in map (\<lambda>m. \<lparr>originalMarkdown = originalMarkdown m, altText = altText m,
                     imagePath = imagePath m,
                     absoluteImagePath =
                       (if isAbsolute (imagePath m) then imagePath m
                        else resolve cwd markdownDir (imagePath m))\<rparr>)
           (filter (\<lambda>m. \<not> isRemoteImage (imagePath m)) (findImages content)))"

definition cleanImagePath :: "string \<Rightarrow> string" where
  "cleanImagePath path =
     takeWhile (\<lambda>c. c \<noteq> CHR ''#'') (takeWhile (\<lambda>c. c \<noteq> CHR ''?'') path)"

definition supportedExtensions :: "string list" where
  "supportedExtensions = [''.jpg'', ''.jpeg'', ''.png'', ''.gif'', ''.svg'', ''.webp'', ''.bmp'']"

definition isSupportedImageFormat :: "string \<Rightarrow> bool" where
  "isSupportedImageFormat path =
     (let cleanPath = toLowerCase (cleanImagePath path)
      in list_ex (\<lambda>ext. suffix ext cleanPath) supportedExtensions)"

text \<open>
  \<open>String.prototype.replace\<close> with a string pattern: the first occurrence is replaced,
  and the replacement text is a template (ECMAScript \<open>GetSubstitution\<close>) in which
  \<open>$$\<close> stands for \<open>$\<close>, \<open>$&\<close> for the matched text, \<open>$`\<close> for the text before
  the match and \<open>$'\<close> for the text after it. A string pattern has no capture groups,
  so \<open>$1\<close>, \<open>$<name>\<close> and any other \<open>$\<close> stay as written.
\<close>

fun findSubstring :: "string \<Rightarrow> string \<Rightarrow> (string \<times> string) option" where
  "findSubstring pat [] = (if pat = [] then Some ([], []) else None)"
| "findSubstring pat (c # cs) =
     (if prefix pat (c # cs) then Some ([], drop (length pat) (c # cs))
      else map_option (\<lambda>(front, back). (c # front, back)) (findSubstring pat cs))"

fun getSubstitution :: "string \<Rightarrow> string \<Rightarrow> string \<Rightarrow> string \<Rightarrow> string" where
  "getSubstitution matched front back (c # d # r) =
     (if c = CHR ''$'' then
        (if d = CHR ''$'' then CHR ''$'' # getSubstitution matched front back r
         else if d = CHR ''&'' then matched @ getSubstitution matched front back r
         else if d = CHR 0x60 then front @ getSubstitution matched front back r
         else if d = CHR 0x27 then back @ getSubstitution matched front back r
         else c # getSubstitution matched front back (d # r))
      else c # getSubstitution matched front back (d # r))"
| "getSubstitution matched front back r = r"

definition jsReplace :: "string \<Rightarrow> string \<Rightarrow> string \<Rightarrow> string" where
  "jsReplace str searchValue replaceValue =
     (case findSubstring searchValue str of
        None \<Rightarrow> str
      | Some (front, back) \<Rightarrow>
          front @ getSubstitution searchValue front back replaceValue @ back)"

record conversionCounts =
  convertedImages :: nat
  skippedImages :: nat
  warnings :: "string list"
  errors :: "string list"

record MarkdownConversionResult = conversionCounts +
  content :: string

text \<open>
  The codec as the rewriter calls it: \<open>Inr\<close> the result the promise resolves to,
  \<open>Inl\<close> the message of an exception, which the \<open>catch\<close> inside the loop handles.
\<close>

type_synonym codec = "string \<Rightarrow> string + ImageConversionResult"

definition skipWithWarning :: "string \<Rightarrow> MarkdownConversionResult \<Rightarrow> MarkdownConversionResult" where
  "skipWithWarning warningMsg result =
     result\<lparr>skippedImages := skippedImages result + 1,
            warnings := warnings result @ [warningMsg]\<rparr>"

text \<open>One iteration of \<open>for (const {originalMarkdown, altText, imagePath} of imageMatches)\<close>.\<close>

definition processImage ::
  "codec \<Rightarrow> string \<Rightarrow> string \<Rightarrow> imageMatch \<Rightarrow> string \<times> MarkdownConversionResult
     \<Rightarrow> string \<times> MarkdownConversionResult" where
  "processImage convertImage cwd markdownDir m st =
     (case st of (updatedContent, result) \<Rightarrow>
        if isRemoteImage (imagePath m) then
          (updatedContent, skipWithWarning (''Skipped remote image: '' @ imagePath m) result)
        else if \<not> isSupportedImageFormat (imagePath m) then
          (updatedContent,
           skipWithWarning (''Skipped unsupported image format: '' @ imagePath m) result)
        else
          (let absoluteImagePath =
                 (if isAbsolute (imagePath m) then imagePath m
                  else resolve cwd markdownDir (imagePath m))
           in case convertImage absoluteImagePath of
                Inl errorMessage \<Rightarrow>
                  (updatedContent,
                   result\<lparr>skippedImages := skippedImages result + 1,
                          errors := errors result
                            @ [''Error processing image '' @ imagePath m @ '': '' @ errorMessage]\<rparr>)
              | Inr conversionResult \<Rightarrow>
                  (case dataUri conversionResult of
                     Some uri \<Rightarrow>
                       if success conversionResult \<and> uri \<noteq> [] then
                         (jsReplace updatedContent (originalMarkdown m)
                            (''!['' @ altText m @ '']('' @ uri @ '')''),
                          result\<lparr>convertedImages := convertedImages result + 1\<rparr>)
                       else
                         (updatedContent,
                          skipWithWarning
                            (''Failed to convert image: '' @ imagePath m @ '' - ''
                               @ (case error conversionResult of Some e \<Rightarrow> e
                                  | None \<Rightarrow> ''undefined''))
                            result)
                   | None \<Rightarrow>
                       (updatedContent,
                        skipWithWarning
                          (''Failed to convert image: '' @ imagePath m @ '' - ''
                             @ (case error conversionResult of Some e \<Rightarrow> e
                                | None \<Rightarrow> ''undefined''))
                          result))))"

definition convertMarkdownImagesWith ::
  "codec \<Rightarrow> string \<Rightarrow> string \<Rightarrow> string \<Rightarrow> MarkdownConversionResult" where
  "convertMarkdownImagesWith convertImage cwd content0 markdownFilePath =
     (let result = \<lparr>convertedImages = 0, skippedImages = 0, warnings = [], errors = [],
                     content = content0\<rparr>;
          markdownDir = dirname markdownFilePath;
          imageMatches = findImages content0;
          (updatedContent, result') =
             foldl (\<lambda>st m. processImage convertImage cwd markdownDir m st)
               (content0, result) imageMatches
      in result'\<lparr>content := updatedContent\<rparr>)"

text \<open>
  The rewriter with the codec of \<open>imageUtils.ts\<close>. \<open>convertImageToBase64\<close> catches
  everything it does and always resolves, so the \<open>Inl\<close> branch is never taken here;
  nothing outside the loop throws either, which leaves the outer \<open>catch\<close> of
  \<open>convertMarkdownImages\<close> without a case.
\<close>

definition convertMarkdownImages ::
  "filesystem \<Rightarrow> string \<Rightarrow> string \<Rightarrow> string \<Rightarrow> MarkdownConversionResult" where
  "convertMarkdownImages fs cwd content0 markdownFilePath =
     convertMarkdownImagesWith (\<lambda>p. Inr (convertImageToBase64 fs p)) cwd content0 markdownFilePath"

section \<open>Directory scanner (\<open>fileScanner.ts\<close>)\<close>

text \<open>The field \<open>content\<close> of \<open>IMarkdownFile\<close> is \<open>fileContent\<close> here.\<close>

record IMarkdownFile =
  relativePath :: string
  absolutePath :: string
  fileContent :: string

text \<open>
  The source tree as the scanner meets it. A file gives its text or the message
  \<open>readFile\<close> throws; a directory gives its entries by name, or the message
  \<open>readdir\<close> throws; anything else (a link, a socket) is neither.
\<close>

datatype fsNode =
    FileNode "string + string"
  | DirNode "(string \<times> fsNode) list"
  | UnreadableDir string
  | OtherNode

text \<open>What \<open>fs.stat(absoluteSourceDir)\<close> does: no such entry, another error, or the node.\<close>

datatype statResult = NoEntry | StatFails string | Found fsNode

text \<open>
  \<open>path.join(a, b)\<close> for an absolute \<open>a\<close>, and \<open>path.relative(from, to)\<close> for two
  absolute paths: the common leading segments go, what is left of \<open>from\<close> becomes
  \<open>..\<close> segments, what is left of \<open>to\<close> follows.
\<close>

definition joinPath :: "string \<Rightarrow> string \<Rightarrow> string" where
  "joinPath a b = CHR ''/'' # joinSegments (normalizeSegments [] (segments [] (a @ ''/'' @ b)))"

fun dropCommon :: "string list \<Rightarrow> string list \<Rightarrow> string list \<times> string list" where
  "dropCommon (x # xs) (y # ys) = (if x = y then dropCommon xs ys else (x # xs, y # ys))"
| "dropCommon xs ys = (xs, ys)"

definition relative :: "string \<Rightarrow> string \<Rightarrow> string" where
  "relative from to =
     (case dropCommon (normalizeSegments [] (segments [] from))
             (normalizeSegments [] (segments [] to)) of
        (up, down) \<Rightarrow> joinSegments (replicate (length up) ''..'' @ down))"

definition isMarkdownFile :: "string \<Rightarrow> bool" where
  "isMarkdownFile filename =
     (let ext = toLowerCase (extname filename) in ext = ''.md'' \<or> ext = ''.markdown'')"

text \<open>
  \<open>scanDirectory\<close>, entry by entry, in the order of the listing. A markdown file that
  cannot be read is logged and left out. A subdirectory that cannot be listed makes the
  recursive call throw; the \<open>catch\<close> around the entry logs it and goes on, so it is left
  out too. Nothing is pushed to any error list.
\<close>

fun scanEntry :: "string \<Rightarrow> string \<Rightarrow> string \<Rightarrow> fsNode \<Rightarrow> IMarkdownFile list"
  and scanEntries :: "string \<Rightarrow> string \<Rightarrow> (string \<times> fsNode) list \<Rightarrow> IMarkdownFile list" where
  "scanEntry absoluteSourceDir fullPath name (DirNode entries) =
     scanEntries absoluteSourceDir fullPath entries"
| "scanEntry absoluteSourceDir fullPath name (UnreadableDir msg) = []"
| "scanEntry absoluteSourceDir fullPath name (FileNode readResult) =
     (if isMarkdownFile name then
        (case readResult of
           Inr text \<Rightarrow>
             [\<lparr>relativePath = relative absoluteSourceDir fullPath, absolutePath = fullPath,
               fileContent = text\<rparr>]
         | Inl readError \<Rightarrow> [])
      else [])"
| "scanEntry absoluteSourceDir fullPath name OtherNode = []"
| "scanEntries absoluteSourceDir currentDir [] = []"
| "scanEntries absoluteSourceDir currentDir ((name, node) # rest) =
     scanEntry absoluteSourceDir (joinPath currentDir name) name node
       @ scanEntries absoluteSourceDir currentDir rest"

text \<open>
  \<open>scanMarkdownFiles\<close>: \<open>Inl\<close> the message of the error it throws (the source is
  missing, is not a directory, or cannot be listed), \<open>Inr\<close> the files found.
\<close>

definition scanMarkdownFiles :: "string \<Rightarrow> string \<Rightarrow> statResult \<Rightarrow> string + IMarkdownFile list" where
  "scanMarkdownFiles cwd sourceDir stat =
     (let absoluteSourceDir = resolve cwd cwd sourceDir
      in case stat of
           NoEntry \<Rightarrow> Inl (''Source directory does not exist: '' @ absoluteSourceDir)
         | StatFails msg \<Rightarrow> Inl msg
         | Found (DirNode entries) \<Rightarrow>
             Inr (scanEntries absoluteSourceDir absoluteSourceDir entries)
         | Found (UnreadableDir msg) \<Rightarrow>
             Inl (''Failed to scan directory '' @ absoluteSourceDir @ '': '' @ msg)
         | Found _ \<Rightarrow> Inl (''Source path is not a directory: '' @ absoluteSourceDir))"

section \<open>Conversion logger (\<open>logger.ts\<close>)\<close>

text \<open>
  The statistics of \<open>ConvertLogger\<close>, which \<open>startConversion\<close> sets to zero. Its fields
  \<open>warnings\<close> and \<open>errors\<close> are \<open>warningCount\<close> and \<open>errorCount\<close> here.
\<close>

record loggerStatistics =
  filesProcessed :: nat
  filesSkipped :: nat
  imagesSucess :: nat
  imagesSkipped :: nat
  warningCount :: nat
  errorCount :: nat

definition logFileProcessingSuccess :: "nat \<Rightarrow> nat \<Rightarrow> loggerStatistics \<Rightarrow> loggerStatistics" where
  "logFileProcessingSuccess converted skipped stats =
     stats\<lparr>filesProcessed := filesProcessed stats + 1,
           imagesSucess := imagesSucess stats + converted,
           imagesSkipped := imagesSkipped stats + skipped\<rparr>"

definition logFileProcessingError :: "loggerStatistics \<Rightarrow> loggerStatistics" where
  "logFileProcessingError stats =
     stats\<lparr>filesSkipped := filesSkipped stats + 1, errorCount := errorCount stats + 1\<rparr>"

definition logDirectoryOperationError :: "loggerStatistics \<Rightarrow> loggerStatistics" where
  "logDirectoryOperationError stats = stats\<lparr>errorCount := errorCount stats + 1\<rparr>"

definition logWarning :: "loggerStatistics \<Rightarrow> loggerStatistics" where
  "logWarning stats = stats\<lparr>warningCount := warningCount stats + 1\<rparr>"

definition logError :: "loggerStatistics \<Rightarrow> loggerStatistics" where
  "logError stats = stats\<lparr>errorCount := errorCount stats + 1\<rparr>"

section \<open>Conversion orchestrator (\<open>converter.ts\<close>)\<close>

record IConvertResult = conversionCounts +
  totalFiles :: nat

text \<open>
  What the orchestrator calls, by its outcome: the rewriter as \<open>processMarkdownFile\<close>
  awaits it (\<open>Inl\<close> the message of an exception), and
  \<open>writeMarkdownFile(outputDir, relativePath, content)\<close>, which makes the directories
  and writes the file (\<open>None\<close>) or throws an error (\<open>Some\<close> its message).
\<close>

type_synonym rewriter = "string \<Rightarrow> string \<Rightarrow> string + MarkdownConversionResult"

type_synonym writer = "string \<Rightarrow> string \<Rightarrow> string option"

text \<open>
  The state of the file loop: the aggregate result, the files written to the output
  directory so far, the two counters of the loop, and the statistics of the logger.
\<close>

record runState =
  aggregate :: IConvertResult
  written :: "(string \<times> string) list"
  processedFiles :: nat
  failedFiles :: nat
  statistics :: loggerStatistics

definition pushError :: "string \<Rightarrow> IConvertResult \<Rightarrow> IConvertResult" where
  "pushError errorMsg result = result\<lparr>errors := errors result @ [errorMsg]\<rparr>"

definition accumulate :: "MarkdownConversionResult \<Rightarrow> IConvertResult \<Rightarrow> IConvertResult" where
  "accumulate conversionResult result =
     result\<lparr>convertedImages := convertedImages result + convertedImages conversionResult,
            skippedImages := skippedImages result + skippedImages conversionResult,
            warnings := warnings result @ warnings conversionResult,
            errors := errors result @ errors conversionResult\<rparr>"

text \<open>
  \<open>processMarkdownFile\<close>: the updated state, and \<open>Inr\<close> the per-file result or
  \<open>Inl\<close> the message of the exception it re-throws. Each \<open>catch\<close> pushes its message
  and calls \<open>convertLogger.logError\<close>.
\<close>

definition processMarkdownFile ::
  "rewriter \<Rightarrow> writer \<Rightarrow> IMarkdownFile \<Rightarrow> runState
     \<Rightarrow> runState \<times> (string + MarkdownConversionResult)" where
  "processMarkdownFile rewrite writeMarkdownFile file st =
     (case rewrite (fileContent file) (absolutePath file) of
        Inl errorMessage \<Rightarrow>
          (st\<lparr>aggregate :=
                pushError (''Error processing file '' @ relativePath file @ '': '' @ errorMessage)
                  (aggregate st),
              statistics := logError (statistics st)\<rparr>,
           Inl errorMessage)
      | Inr conversionResult \<Rightarrow>
          (let result = accumulate conversionResult (aggregate st)
           in case writeMarkdownFile (relativePath file) (content conversionResult) of
                Some errorMessage \<Rightarrow>
                  (st\<lparr>aggregate :=
                        pushError
                          (''Error processing file '' @ relativePath file @ '': '' @ errorMessage)
                          (pushError
                             (''Failed to write converted file '' @ relativePath file @ '': ''
                                @ errorMessage)
                             result),
                      statistics := logError (logError (statistics st))\<rparr>,
                   Inl errorMessage)
              | None \<Rightarrow>
                  (st\<lparr>aggregate := result,
                      written := written st @ [(relativePath file, content conversionResult)]\<rparr>,
                   Inr conversionResult)))"

text \<open>
  One iteration of \<open>for (let i = 0; i < markdownFiles.length; i++)\<close>: the logger counts
  the images of a file only when \<open>processMarkdownFile\<close> has returned.
\<close>

definition processFile :: "rewriter \<Rightarrow> writer \<Rightarrow> IMarkdownFile \<Rightarrow> runState \<Rightarrow> runState" where
  "processFile rewrite writeMarkdownFile file st =
     (case processMarkdownFile rewrite writeMarkdownFile file st of
        (st', Inr fileResult) \<Rightarrow>
          st'\<lparr>processedFiles := processedFiles st' + 1,
              statistics :=
                logFileProcessingSuccess (convertedImages fileResult) (skippedImages fileResult)
                  (statistics st')\<rparr>
      | (st', Inl errorMessage) \<Rightarrow>
          st'\<lparr>failedFiles := failedFiles st' + 1,
              aggregate :=
                pushError (''Failed to process file '' @ relativePath file @ '': '' @ errorMessage)
                  (aggregate st'),
              statistics := logFileProcessingError (statistics st')\<rparr>)"

fun processFiles :: "rewriter \<Rightarrow> writer \<Rightarrow> IMarkdownFile list \<Rightarrow> runState \<Rightarrow> runState" where
  "processFiles rewrite writeMarkdownFile [] st = st"
| "processFiles rewrite writeMarkdownFile (file # rest) st =
     processFiles rewrite writeMarkdownFile rest (processFile rewrite writeMarkdownFile file st)"

definition initialState :: runState where
  "initialState =
     \<lparr>aggregate = \<lparr>convertedImages = 0, skippedImages = 0, warnings = [], errors = [],
                    totalFiles = 0\<rparr>,
      written = [], processedFiles = 0, failedFiles = 0,
      statistics = \<lparr>filesProcessed = 0, filesSkipped = 0, imagesSucess = 0, imagesSkipped = 0,
                     warningCount = 0, errorCount = 0\<rparr>\<rparr>"

text \<open>
  \<open>convert\<close>, given what \<open>scanMarkdownFiles\<close> and \<open>createOutputDirectory\<close> did
  (the list of files or the message thrown; nothing or the message thrown). The
  spinner and the log lines that count nothing are left out; every call that can throw
  sits in a \<open>try\<close> of its own, so the outermost \<open>catch\<close> has no case.
\<close>

definition convertWith ::
  "string \<Rightarrow> string + IMarkdownFile list \<Rightarrow> string option \<Rightarrow> rewriter \<Rightarrow> writer \<Rightarrow> runState" where
  "convertWith sourceDir scanned created rewrite writeMarkdownFile =
     (case scanned of
        Inl errorMessage \<Rightarrow>
          initialState\<lparr>aggregate :=
            pushError (''Failed to scan markdown files: '' @ errorMessage) (aggregate initialState),
            statistics := logError (statistics initialState)\<rparr>
      | Inr markdownFiles \<Rightarrow>
          (let st = initialState\<lparr>aggregate :=
                      (aggregate initialState)\<lparr>totalFiles := length markdownFiles\<rparr>\<rparr>
           in if markdownFiles = [] then
                st\<lparr>aggregate := (aggregate st)\<lparr>warnings := warnings (aggregate st)
                  @ [''No markdown files found in source directory: '' @ sourceDir]\<rparr>,
                  statistics := logWarning (statistics st)\<rparr>
              else (case created of
                      Some errorMessage \<Rightarrow>
                        st\<lparr>aggregate :=
                          pushError (''Failed to create output directory: '' @ errorMessage)
                            (aggregate st),
                          statistics := logDirectoryOperationError (statistics st)\<rparr>
                    | None \<Rightarrow> processFiles rewrite writeMarkdownFile markdownFiles st)))"

text \<open>The run as the class wires it: the rewriter of \<open>markdownProcessor.ts\<close>.\<close>

definition convert ::
  "filesystem \<Rightarrow> string \<Rightarrow> string \<Rightarrow> string + IMarkdownFile list \<Rightarrow> string option \<Rightarrow> writer
     \<Rightarrow> runState" where
  "convert fs cwd sourceDir scanned created writeMarkdownFile =
     convertWith sourceDir scanned created
       (\<lambda>c p. Inr (convertMarkdownImages fs cwd c p)) writeMarkdownFile"

text \<open>
  The run from the source tree: the constructor resolves the source directory, and
  \<open>convert\<close> scans it.
\<close>

definition convertDirectory ::
  "filesystem \<Rightarrow> string \<Rightarrow> string \<Rightarrow> statResult \<Rightarrow> string option \<Rightarrow> writer \<Rightarrow> runState" where
  "convertDirectory fs cwd sourceDir stat created writeMarkdownFile =
     convert fs cwd (resolve cwd cwd sourceDir)
       (scanMarkdownFiles cwd (resolve cwd cwd sourceDir) stat) created writeMarkdownFile"

section \<open>Base64 round trip\<close>

lemma distinct_base64Alphabet: "distinct base64Alphabet"
  by (simp add: base64Alphabet_def)

lemma length_base64Alphabet: "length base64Alphabet = 64"
  by (simp add: base64Alphabet_def)

lemma indexOf_nth: "distinct xs \<Longrightarrow> n < length xs \<Longrightarrow> indexOf (xs ! n) xs = Some n"
proof (induction xs arbitrary: n)
  case Nil
  then show ?case by simp
next
  case (Cons y ys)
  show ?case
  proof (cases n)
    case 0
    then show ?thesis by simp
  next
    case (Suc m)
    with Cons.prems have "ys ! m \<in> set ys" "y \<notin> set ys" by auto
    then have "ys ! m \<noteq> y" by auto
    with Suc Cons show ?thesis by auto
  qed
qed

lemma base64Index_Char: "n < 64 \<Longrightarrow> base64Index (base64Char n) = Some n"
  unfolding base64Index_def base64Char_def
  using indexOf_nth[OF distinct_base64Alphabet] length_base64Alphabet by simp

lemma base64Char_not_pad: "n < 64 \<Longrightarrow> base64Char n \<noteq> CHR ''=''"
proof -
  assume "n < 64"
  then have "base64Char n \<in> set base64Alphabet"
    unfolding base64Char_def using length_base64Alphabet by simp
  moreover have "CHR ''='' \<notin> set base64Alphabet"
    by (simp add: base64Alphabet_def)
  ultimately show ?thesis by auto
qed

lemma base64Char_in_alphabet: "n < 64 \<Longrightarrow> base64Char n \<in> set base64Alphabet"
  unfolding base64Char_def using length_base64Alphabet by simp

lemma byte_lt: "unat (a::byte) < 256"
  using unsigned_less[of a, where ?'a = nat] by simp

lemma byte_of_unat: "n = unat a \<Longrightarrow> (of_nat n :: byte) = a"
  by simp

lemma sextet1: "x < 256 \<Longrightarrow> x div 4 < (64::nat)"
  by simp

lemma sextet2: "y < 256 \<Longrightarrow> (x mod 4) * 16 + y div 16 < (64::nat)"
proof -
  assume "y < 256"
  then have "y div 16 < 16" by simp
  moreover have "x mod 4 < 4" by simp
  ultimately show ?thesis by linarith
qed

lemma sextet3: "z < 256 \<Longrightarrow> (y mod 16) * 4 + z div 64 < (64::nat)"
proof -
  assume "z < 256"
  then have "z div 64 < 4" by simp
  moreover have "y mod 16 < 16" by simp
  ultimately show ?thesis by linarith
qed

lemma sextet4: "z mod 64 < (64::nat)"
  by simp

lemma octet1:
  "y < 256 \<Longrightarrow> (x div 4) * 4 + ((x mod 4) * 16 + y div 16) div 16 = (x::nat)"
proof -
  assume "y < 256"
  then have "y div 16 < 16" by simp
  then have "((x mod 4) * 16 + y div 16) div 16 = x mod 4" by simp
  then show ?thesis by simp
qed

lemma octet2:
  "y < 256 \<Longrightarrow> z < 256 \<Longrightarrow>
     (((x mod 4) * 16 + y div 16) mod 16) * 16 + ((y mod 16) * 4 + z div 64) div 4 = (y::nat)"
proof -
  assume "y < 256" "z < 256"
  then have a: "y div 16 < 16" and b: "z div 64 < 4" by simp_all
  from a have "((x mod 4) * 16 + y div 16) mod 16 = y div 16" by simp
  moreover from b have "((y mod 16) * 4 + z div 64) div 4 = y mod 16" by simp
  ultimately show ?thesis by simp
qed

lemma octet3: "z < 256 \<Longrightarrow> (((y mod 16) * 4 + z div 64) mod 4) * 64 + z mod 64 = (z::nat)"
proof -
  assume "z < 256"
  then have b: "z div 64 < 4" by simp
  then have "((y mod 16) * 4 + z div 64) mod 4 = z div 64" by simp
  then show ?thesis by simp
qed

lemma decode_group:
  fixes a b c :: byte
  assumes rest: "base64Decode r = Some bs"
  shows "base64Decode
           ([base64Char (unat a div 4), base64Char ((unat a mod 4) * 16 + unat b div 16),
             base64Char ((unat b mod 16) * 4 + unat c div 64), base64Char (unat c mod 64)] @ r)
         = Some (a # b # c # bs)"
proof -
  let ?x = "unat a" and ?y = "unat b" and ?z = "unat c"
  have bnd: "?x < 256" "?y < 256" "?z < 256" by (rule byte_lt)+
  have i1: "base64Index (base64Char (?x div 4)) = Some (?x div 4)"
    by (rule base64Index_Char[OF sextet1[OF bnd(1)]])
  have i2: "base64Index (base64Char ((?x mod 4) * 16 + ?y div 16))
              = Some ((?x mod 4) * 16 + ?y div 16)"
    by (rule base64Index_Char[OF sextet2[OF bnd(2)]])
  have i3: "base64Index (base64Char ((?y mod 16) * 4 + ?z div 64))
              = Some ((?y mod 16) * 4 + ?z div 64)"
    by (rule base64Index_Char[OF sextet3[OF bnd(3)]])
  have i4: "base64Index (base64Char (?z mod 64)) = Some (?z mod 64)"
    by (rule base64Index_Char[OF sextet4])
  have np: "base64Char (?z mod 64) \<noteq> CHR ''=''"
    by (rule base64Char_not_pad[OF sextet4])
  have o1: "(of_nat ((?x div 4) * 4 + ((?x mod 4) * 16 + ?y div 16) div 16) :: byte) = a"
    by (rule byte_of_unat[OF octet1[OF bnd(2)]])
  have o2: "(of_nat ((((?x mod 4) * 16 + ?y div 16) mod 16) * 16
               + ((?y mod 16) * 4 + ?z div 64) div 4) :: byte) = b"
    by (rule byte_of_unat[OF octet2[OF bnd(2) bnd(3)]])
  have o3: "(of_nat ((((?y mod 16) * 4 + ?z div 64) mod 4) * 64 + ?z mod 64) :: byte) = c"
    by (rule byte_of_unat[OF octet3[OF bnd(3)]])
  show ?thesis
    by (simp only: append_Cons append_Nil base64Decode.simps i1 i2 i3 i4 np o1 o2 o3 rest
        prod.case option.case simp_thms if_False option.map)
qed

lemma base64_roundtrip: "base64Decode (base64Encode bs) = Some bs"
proof (induction bs rule: base64Encode.induct)
  case 1
  show ?case by simp
next
  case (2 a)
  have b: "unat a < 256" by (rule byte_lt)
  have i1: "base64Index (base64Char (unat a div 4)) = Some (unat a div 4)"
    by (rule base64Index_Char[OF sextet1[OF b]])
  have "(unat a mod 4) * 16 < 64" using sextet2[of 0 "unat a"] by simp
  then have i2: "base64Index (base64Char ((unat a mod 4) * 16)) = Some ((unat a mod 4) * 16)"
    by (rule base64Index_Char)
  have "(of_nat (unat a div 4 * 4 + (unat a mod 4 * 16) div 16) :: byte) = a" by simp
  then show ?case by (simp add: i1 i2 Let_def)
next
  case (3 a b)
  have ba: "unat a < 256" and bb: "unat b < 256" by (rule byte_lt)+
  have i1: "base64Index (base64Char (unat a div 4)) = Some (unat a div 4)"
    by (rule base64Index_Char[OF sextet1[OF ba]])
  have i2: "base64Index (base64Char ((unat a mod 4) * 16 + unat b div 16))
              = Some ((unat a mod 4) * 16 + unat b div 16)"
    by (rule base64Index_Char[OF sextet2[OF bb]])
  have "(unat b mod 16) * 4 < 64" using sextet3[of 0 "unat b"] by simp
  then have i3: "base64Index (base64Char ((unat b mod 16) * 4)) = Some ((unat b mod 16) * 4)"
      and np: "base64Char ((unat b mod 16) * 4) \<noteq> CHR ''=''"
    by (rule base64Index_Char, rule base64Char_not_pad)
  have o1: "(of_nat ((unat a div 4) * 4 + ((unat a mod 4) * 16 + unat b div 16) div 16) :: byte)
              = a"
    by (rule byte_of_unat[OF octet1[OF bb]])
  have "(((unat a mod 4) * 16 + unat b div 16) mod 16) * 16 + ((unat b mod 16) * 4) div 4
          = unat b"
    using octet2[OF bb, of 0 "unat a"] by simp
  then have o2: "(of_nat ((((unat a mod 4) * 16 + unat b div 16) mod 16) * 16
                    + ((unat b mod 16) * 4) div 4) :: byte) = b"
    by (rule byte_of_unat)
  show ?case using o1 o2 by (simp add: i1 i2 i3 np Let_def)
next
  case (4 a b c rest)
  show ?case using decode_group[OF 4] by (simp add: Let_def)
qed

lemma base64Encode_chars:
  "set (base64Encode bs) \<subseteq> insert (CHR ''='') (set base64Alphabet)"
proof (induction bs rule: base64Encode.induct)
  case 1
  show ?case by simp
next
  case (2 a)
  have "unat a div 4 < 64" by (rule sextet1[OF byte_lt])
  moreover have "(unat a mod 4) * 16 < 64" using sextet2[of 0 "unat a"] by simp
  ultimately show ?case by (simp add: Let_def base64Char_in_alphabet)
next
  case (3 a b)
  have "unat a div 4 < 64" by (rule sextet1[OF byte_lt])
  moreover have "(unat a mod 4) * 16 + unat b div 16 < 64" by (rule sextet2[OF byte_lt])
  moreover have "(unat b mod 16) * 4 < 64" using sextet3[of 0 "unat b"] by simp
  ultimately show ?case by (simp add: Let_def base64Char_in_alphabet)
next
  case (4 a b c rest)
  have "unat a div 4 < 64" by (rule sextet1[OF byte_lt])
  moreover have "(unat a mod 4) * 16 + unat b div 16 < 64" by (rule sextet2[OF byte_lt])
  moreover have "(unat b mod 16) * 4 + unat c div 64 < 64" by (rule sextet3[OF byte_lt])
  moreover have "unat c mod 64 < 64" by (rule sextet4)
  ultimately show ?case using 4 by (auto simp: Let_def base64Char_in_alphabet)
qed

lemma base64Encode_no_dollar: "CHR ''$'' \<notin> set (base64Encode bs)"
proof
  assume "CHR ''$'' \<in> set (base64Encode bs)"
  with base64Encode_chars[of bs] have "CHR ''$'' \<in> insert (CHR ''='') (set base64Alphabet)"
    by blast
  then show False by (simp add: base64Alphabet_def)
qed

section \<open>The codec\<close>

lemma supported_extension_has_mime:
  "ext \<in> set SUPPORTED_IMAGE_EXTENSIONS \<Longrightarrow> \<exists>mime. map_of MIME_TYPES ext = Some mime"
  unfolding SUPPORTED_IMAGE_EXTENSIONS_def
  by (cases "map_of MIME_TYPES ext") (simp_all add: map_of_eq_None_iff)

lemma supported_extension_of_named_file:
  "ext \<in> set SUPPORTED_IMAGE_EXTENSIONS \<Longrightarrow> toLowerCase (extname (''image'' @ ext)) = ext"
  by (auto simp: SUPPORTED_IMAGE_EXTENSIONS_def MIME_TYPES_def extname_def lastComponent_def
      toLowerCase_def lowerChar_def)

lemma mime_no_dollar: "map_of MIME_TYPES ext = Some mime \<Longrightarrow> CHR ''$'' \<notin> set mime"
  by (auto simp: MIME_TYPES_def split: if_splits)

lemma codec_encodes_readable:
  assumes "fs p = Some (Readable buf)" and "map_of MIME_TYPES (toLowerCase (extname p)) = Some mime"
  shows "convertImageToBase64 fs p
           = \<lparr>success = True,
              dataUri = Some (''data:'' @ mime @ '';base64,'' @ base64Encode buf),
              error = None\<rparr>"
  using assms
  by (simp add: convertImageToBase64_def fileExists_def isImageFile_def
      generateDataUriFromPath_def getImageMimeType_def generateDataUri_def)

lemma codec_uri_no_dollar:
  assumes "dataUri (convertImageToBase64 fs p) = Some uri"
  shows "CHR ''$'' \<notin> set uri"
proof -
  from assms obtain buf mime where "map_of MIME_TYPES (toLowerCase (extname p)) = Some mime"
    and "uri = ''data:'' @ mime @ '';base64,'' @ base64Encode buf"
    by (auto simp: convertImageToBase64_def failed_def generateDataUriFromPath_def
        getImageMimeType_def generateDataUri_def split: if_splits option.splits fentry.splits)
  with mime_no_dollar base64Encode_no_dollar show ?thesis by auto
qed

section \<open>The rewriter, one reference at a time\<close>

lemma skipWithWarning_simps [simp]:
  "convertedImages (skipWithWarning w r) = convertedImages r"
  "skippedImages (skipWithWarning w r) = skippedImages r + 1"
  "warnings (skipWithWarning w r) = warnings r @ [w]"
  "errors (skipWithWarning w r) = errors r"
  "content (skipWithWarning w r) = content r"
  by (simp_all add: skipWithWarning_def)

lemma processImage_remote:
  "isRemoteImage (imagePath m) \<Longrightarrow>
     processImage cv cwd dir m (c, r)
       = (c, skipWithWarning (''Skipped remote image: '' @ imagePath m) r)"
  by (simp add: processImage_def)

lemma processImage_unsupported:
  "\<not> isRemoteImage (imagePath m) \<Longrightarrow> \<not> isSupportedImageFormat (imagePath m) \<Longrightarrow>
     processImage cv cwd dir m (c, r)
       = (c, skipWithWarning (''Skipped unsupported image format: '' @ imagePath m) r)"
  by (simp add: processImage_def)

lemma processImage_codec_throws:
  assumes "\<not> isRemoteImage (imagePath m)" and "isSupportedImageFormat (imagePath m)"
      and "cv (if isAbsolute (imagePath m) then imagePath m else resolve cwd dir (imagePath m))
             = Inl e"
  shows "processImage cv cwd dir m (c, r)
           = (c, r\<lparr>skippedImages := skippedImages r + 1,
                   errors := errors r @ [''Error processing image '' @ imagePath m @ '': '' @ e]\<rparr>)"
  using assms by (simp add: processImage_def Let_def)

lemma processImage_converted:
  assumes "\<not> isRemoteImage (imagePath m)" and "isSupportedImageFormat (imagePath m)"
      and "cv (if isAbsolute (imagePath m) then imagePath m else resolve cwd dir (imagePath m))
             = Inr cr"
      and "dataUri cr = Some uri" and "success cr" and "uri \<noteq> []"
  shows "processImage cv cwd dir m (c, r)
           = (jsReplace c (originalMarkdown m) (''!['' @ altText m @ '']('' @ uri @ '')''),
              r\<lparr>convertedImages := convertedImages r + 1\<rparr>)"
  using assms by (simp add: processImage_def Let_def)

lemma processImage_codec_failed:
  assumes "\<not> isRemoteImage (imagePath m)" and "isSupportedImageFormat (imagePath m)"
      and "cv (if isAbsolute (imagePath m) then imagePath m else resolve cwd dir (imagePath m))
             = Inr cr"
      and "dataUri cr = None \<or> dataUri cr = Some [] \<or> \<not> success cr"
  shows "processImage cv cwd dir m (c, r)
           = (c, skipWithWarning
                   (''Failed to convert image: '' @ imagePath m @ '' - ''
                      @ (case error cr of Some e \<Rightarrow> e | None \<Rightarrow> ''undefined''))
                   r)"
proof (cases "dataUri cr")
  case None
  with assms(1-3) show ?thesis by (simp add: processImage_def Let_def)
next
  case (Some uri)
  with assms(4) have "uri = [] \<or> \<not> success cr" by auto
  then show ?thesis
  proof
    assume "uri = []"
    with Some assms(1-3) show ?thesis by (simp add: processImage_def Let_def)
  next
    assume "\<not> success cr"
    with Some assms(1-3) show ?thesis by (simp add: processImage_def Let_def)
  qed
qed

text \<open>
  What one reference can do to the result: five shapes.
\<close>

lemma processImage_shapes:
  "(isRemoteImage (imagePath m)
      \<and> snd (processImage cv cwd dir m (c, r))
          = skipWithWarning (''Skipped remote image: '' @ imagePath m) r)
   \<or> (\<not> isRemoteImage (imagePath m)
      \<and> snd (processImage cv cwd dir m (c, r))
          = skipWithWarning (''Skipped unsupported image format: '' @ imagePath m) r)
   \<or> (\<not> isRemoteImage (imagePath m)
      \<and> (\<exists>x. snd (processImage cv cwd dir m (c, r))
          = skipWithWarning (''Failed to convert image: '' @ imagePath m @ '' - '' @ x) r))
   \<or> (\<not> isRemoteImage (imagePath m)
      \<and> (\<exists>e. snd (processImage cv cwd dir m (c, r))
          = r\<lparr>skippedImages := skippedImages r + 1, errors := errors r @ [e]\<rparr>))
   \<or> (\<not> isRemoteImage (imagePath m)
      \<and> snd (processImage cv cwd dir m (c, r))
          = r\<lparr>convertedImages := convertedImages r + 1\<rparr>)"
proof (cases "isRemoteImage (imagePath m)")
  case True
  then show ?thesis by (simp add: processImage_remote)
next
  case remote: False
  show ?thesis
  proof (cases "isSupportedImageFormat (imagePath m)")
    case False
    with remote show ?thesis by (simp add: processImage_unsupported)
  next
    case supported: True
    let ?abs = "if isAbsolute (imagePath m) then imagePath m else resolve cwd dir (imagePath m)"
    show ?thesis
    proof (cases "cv ?abs")
      case (Inl e)
      have "snd (processImage cv cwd dir m (c, r))
              = r\<lparr>skippedImages := skippedImages r + 1,
                    errors := errors r
                      @ [''Error processing image '' @ imagePath m @ '': '' @ e]\<rparr>"
        by (simp add: processImage_codec_throws[where cv = cv, OF remote supported Inl])
      with remote show ?thesis by blast
    next
      case (Inr cr)
      show ?thesis
      proof (cases "dataUri cr = None \<or> dataUri cr = Some [] \<or> \<not> success cr")
        case True
        have "snd (processImage cv cwd dir m (c, r))
                = skipWithWarning
                   (''Failed to convert image: '' @ imagePath m @ '' - ''
                      @ (case error cr of Some e \<Rightarrow> e | None \<Rightarrow> ''undefined''))
                   r"
          by (simp add: processImage_codec_failed[where cv = cv, OF remote supported Inr True])
        with remote show ?thesis by blast
      next
        case False
        then obtain uri where "dataUri cr = Some uri" "success cr" "uri \<noteq> []" by auto
        from processImage_converted[where cv = cv and c = c and r = r, OF remote supported Inr this] remote
        show ?thesis by simp
      qed
    qed
  qed
qed

lemma processImage_counts:
  "convertedImages (snd (processImage cv cwd dir m st))
     + skippedImages (snd (processImage cv cwd dir m st))
   = convertedImages (snd st) + skippedImages (snd st) + 1"
proof -
  obtain c r where st: "st = (c, r)" by (cases st)
  from processImage_shapes[where cv = cv and cwd = cwd and dir = dir and m = m and c = c and r = r] show ?thesis
    unfolding st by (elim disjE exE conjE) simp_all
qed

lemma processImage_warnings_mono:
  "set (warnings (snd st)) \<subseteq> set (warnings (snd (processImage cv cwd dir m st)))"
proof -
  obtain c r where st: "st = (c, r)" by (cases st)
  from processImage_shapes[where cv = cv and cwd = cwd and dir = dir and m = m and c = c and r = r] show ?thesis
    unfolding st by (elim disjE exE conjE) auto
qed

lemma processImage_not_remote_warning:
  assumes "\<not> isRemoteImage (imagePath m)"
  shows "warnings (snd (processImage cv cwd dir m (c, r)))
          \<noteq> warnings r @ [''Skipped remote image: '' @ imagePath m]"
  using processImage_shapes[where cv = cv and cwd = cwd and dir = dir and m = m and c = c and r = r] assms
  by (elim disjE exE conjE) auto

lemma processImage_errors_kept:
  "errors (snd (processImage (\<lambda>p. Inr (g p)) cwd dir m (c, r))) = errors r"
proof (cases "isRemoteImage (imagePath m)")
  case True
  then show ?thesis by (simp add: processImage_remote)
next
  case remote: False
  show ?thesis
  proof (cases "isSupportedImageFormat (imagePath m)")
    case False
    with remote show ?thesis by (simp add: processImage_unsupported)
  next
    case supported: True
    let ?abs = "if isAbsolute (imagePath m) then imagePath m else resolve cwd dir (imagePath m)"
    have called: "(\<lambda>p. Inr (g p)) ?abs = Inr (g ?abs)" by (simp only:)
    show ?thesis
    proof (cases "dataUri (g ?abs) = None \<or> dataUri (g ?abs) = Some [] \<or> \<not> success (g ?abs)")
      case True
      show ?thesis
        by (simp only: processImage_codec_failed[where cv = "\<lambda>p. Inr (g p)",
              OF remote supported called True] snd_conv skipWithWarning_simps)
    next
      case False
      then obtain uri where u: "dataUri (g ?abs) = Some uri" "success (g ?abs)" "uri \<noteq> []"
        by auto
      show ?thesis
        by (simp add: processImage_converted[where cv = "\<lambda>p. Inr (g p)",
              OF remote supported called u])
    qed
  qed
qed

lemma processImage_converted_exact:
  "convertedImages (snd (processImage cv cwd dir m (c, r)))
     = convertedImages r
       + (if \<not> isRemoteImage (imagePath m) \<and> isSupportedImageFormat (imagePath m)
             \<and> (case cv (if isAbsolute (imagePath m) then imagePath m
                           else resolve cwd dir (imagePath m)) of
                    Inl e \<Rightarrow> False
                  | Inr cr \<Rightarrow>
                      success cr
                      \<and> (case dataUri cr of None \<Rightarrow> False | Some uri \<Rightarrow> uri \<noteq> []))
          then 1 else 0)"
proof (cases "isRemoteImage (imagePath m)")
  case True
  then show ?thesis by (simp add: processImage_remote)
next
  case remote: False
  show ?thesis
  proof (cases "isSupportedImageFormat (imagePath m)")
    case False
    with remote show ?thesis by (simp add: processImage_unsupported)
  next
    case supported: True
    let ?abs = "if isAbsolute (imagePath m) then imagePath m else resolve cwd dir (imagePath m)"
    show ?thesis
    proof (cases "cv ?abs")
      case (Inl e)
      show ?thesis
        by (simp only: processImage_codec_throws[where cv = cv, OF remote supported Inl]
            remote supported Inl sum.case snd_conv simp_thms if_False)
           simp
    next
      case (Inr cr)
      show ?thesis
      proof (cases "dataUri cr = None \<or> dataUri cr = Some [] \<or> \<not> success cr")
        case True
        then have no: "\<not> (success cr
                      \<and> (case dataUri cr of None \<Rightarrow> False | Some uri \<Rightarrow> uri \<noteq> []))"
          by auto
        show ?thesis
          by (simp only: processImage_codec_failed[where cv = cv, OF remote supported Inr True]
              remote supported Inr sum.case snd_conv no simp_thms if_False)
             simp
      next
        case False
        then obtain uri where u: "dataUri cr = Some uri" "success cr" "uri \<noteq> []" by auto
        then have yes: "success cr
                      \<and> (case dataUri cr of None \<Rightarrow> False | Some uri \<Rightarrow> uri \<noteq> [])"
          by simp
        show ?thesis
          by (simp only: processImage_converted[where cv = cv, OF remote supported Inr u]
              remote supported Inr sum.case snd_conv yes simp_thms if_True)
             simp
      qed
    qed
  qed
qed

lemma processImage_remote_warnings:
  "filter (prefix ''Skipped remote image: '') (warnings (snd (processImage cv cwd dir m (c, r))))
     = filter (prefix ''Skipped remote image: '') (warnings r)
       @ (if isRemoteImage (imagePath m) then [''Skipped remote image: '' @ imagePath m] else [])"
  using processImage_shapes[where cv = cv and cwd = cwd and dir = dir and m = m and c = c and r = r]
  by (elim disjE exE conjE) simp_all

section \<open>The rewriter, a whole document\<close>

lemma foldl_processImage_counts:
  "convertedImages (snd (foldl (\<lambda>st m. processImage cv cwd dir m st) st ms))
     + skippedImages (snd (foldl (\<lambda>st m. processImage cv cwd dir m st) st ms))
   = convertedImages (snd st) + skippedImages (snd st) + length ms"
  by (induction ms arbitrary: st) (simp_all add: processImage_counts)

lemma foldl_processImage_warnings_mono:
  "set (warnings (snd st))
     \<subseteq> set (warnings (snd (foldl (\<lambda>st m. processImage cv cwd dir m st) st ms)))"
proof (induction ms arbitrary: st)
  case Nil
  show ?case by simp
next
  case (Cons m ms)
  show ?case
    using processImage_warnings_mono[of st cv cwd dir m]
      Cons[of "processImage cv cwd dir m st"] by auto
qed

lemma foldl_processImage_remote_warned:
  assumes "m \<in> set ms" and "isRemoteImage (imagePath m)"
  shows "''Skipped remote image: '' @ imagePath m
           \<in> set (warnings (snd (foldl (\<lambda>st m. processImage cv cwd dir m st) st ms)))"
  using assms(1)
proof (induction ms arbitrary: st)
  case Nil
  then show ?case by simp
next
  case (Cons x ms)
  show ?case
  proof (cases "m = x")
    case True
    obtain c r where st: "st = (c, r)" by (cases st)
    have "''Skipped remote image: '' @ imagePath m
            \<in> set (warnings (snd (processImage cv cwd dir m st)))"
      by (simp add: st processImage_remote[OF assms(2)])
    with foldl_processImage_warnings_mono[of "processImage cv cwd dir m st" cv cwd dir ms] True
    show ?thesis by auto
  next
    case False
    with Cons.prems have "m \<in> set ms" by simp
    then show ?thesis using Cons.IH by simp
  qed
qed

lemma foldl_processImage_all_remote:
  assumes "\<forall>m \<in> set ms. isRemoteImage (imagePath m)"
  shows "foldl (\<lambda>st m. processImage cv cwd dir m st) (c, r) ms
           = (c, r\<lparr>skippedImages := skippedImages r + length ms,
                   warnings := warnings r
                     @ map (\<lambda>m. ''Skipped remote image: '' @ imagePath m) ms\<rparr>)"
  using assms
proof (induction ms arbitrary: r)
  case Nil
  show ?case by simp
next
  case (Cons m ms)
  then have m: "isRemoteImage (imagePath m)" and rest: "\<forall>m \<in> set ms. isRemoteImage (imagePath m)"
    by simp_all
  show ?case
    by (simp add: processImage_remote[OF m] Cons.IH[OF rest] skipWithWarning_def)
qed

lemma foldl_processImage_errors_kept:
  "errors (snd (foldl (\<lambda>st m. processImage (\<lambda>p. Inr (g p)) cwd dir m st) st ms))
     = errors (snd st)"
proof (induction ms arbitrary: st)
  case Nil
  show ?case by simp
next
  case (Cons m ms)
  obtain c r where st: "st = (c, r)" by (cases st)
  show ?case
    by (simp add: Cons.IH st processImage_errors_kept)
qed

lemma convertMarkdownImagesWith_fold:
  "convertMarkdownImagesWith cv cwd content0 p =
     (snd (foldl (\<lambda>st m. processImage cv cwd (dirname p) m st)
             (content0, \<lparr>convertedImages = 0, skippedImages = 0, warnings = [], errors = [],
                          content = content0\<rparr>)
             (findImages content0)))
     \<lparr>content := fst (foldl (\<lambda>st m. processImage cv cwd (dirname p) m st)
             (content0, \<lparr>convertedImages = 0, skippedImages = 0, warnings = [], errors = [],
                          content = content0\<rparr>)
             (findImages content0))\<rparr>"
  by (simp add: convertMarkdownImagesWith_def Let_def split: prod.splits)

lemma convertMarkdownImages_no_errors:
  "errors (convertMarkdownImages fs cwd content0 p) = []"
  by (simp add: convertMarkdownImages_def convertMarkdownImagesWith_fold
      foldl_processImage_errors_kept)

lemma length_extractImageReferences:
  "length (extractImageReferences cwd content0 p)
     = length (filter (\<lambda>m. \<not> isRemoteImage (imagePath m)) (findImages content0))"
  by (simp add: extractImageReferences_def Let_def)

lemma foldl_processImage_converted_exact:
  "convertedImages (snd (foldl (\<lambda>st m. processImage cv cwd dir m st) st ms))
     = convertedImages (snd st)
       + length (filter (\<lambda>m. \<not> isRemoteImage (imagePath m)
             \<and> isSupportedImageFormat (imagePath m)
             \<and> (case cv (if isAbsolute (imagePath m) then imagePath m
                           else resolve cwd dir (imagePath m)) of
                    Inl e \<Rightarrow> False
                  | Inr cr \<Rightarrow>
                      success cr
                      \<and> (case dataUri cr of None \<Rightarrow> False | Some uri \<Rightarrow> uri \<noteq> []))) ms)"
proof (induction ms arbitrary: st)
  case Nil
  show ?case by simp
next
  case (Cons m ms)
  obtain c r where st: "st = (c, r)" by (cases st)
  have step: "convertedImages (snd (processImage cv cwd dir m st))
     = convertedImages (snd st)
       + (if \<not> isRemoteImage (imagePath m) \<and> isSupportedImageFormat (imagePath m)
             \<and> (case cv (if isAbsolute (imagePath m) then imagePath m
                           else resolve cwd dir (imagePath m)) of
                    Inl e \<Rightarrow> False
                  | Inr cr \<Rightarrow>
                      success cr
                      \<and> (case dataUri cr of None \<Rightarrow> False | Some uri \<Rightarrow> uri \<noteq> []))
          then 1 else 0)"
    unfolding st snd_conv by (rule processImage_converted_exact)
  show ?case
    by (simp only: foldl_Cons Cons.IH step filter.simps)
       (simp only: list.size if_distrib[of length] split: if_split, simp)
qed

lemma length_filter_three:
  "length xs = length (filter A xs) + length (filter (\<lambda>x. \<not> A x \<and> B x) xs)
       + length (filter (\<lambda>x. \<not> A x \<and> \<not> B x) xs)"
  by (induction xs) auto

lemma foldl_processImage_remote_warnings:
  "filter (prefix ''Skipped remote image: '')
       (warnings (snd (foldl (\<lambda>st m. processImage cv cwd dir m st) st ms)))
     = filter (prefix ''Skipped remote image: '') (warnings (snd st))
       @ map (\<lambda>m. ''Skipped remote image: '' @ imagePath m)
           (filter (\<lambda>m. isRemoteImage (imagePath m)) ms)"
proof (induction ms arbitrary: st)
  case Nil
  show ?case by simp
next
  case (Cons m ms)
  obtain c r where st: "st = (c, r)" by (cases st)
  show ?case
    by (simp add: Cons.IH st processImage_remote_warnings)
qed

section \<open>The replacement template\<close>

lemma getSubstitution_no_dollar:
  "CHR ''$'' \<notin> set t \<Longrightarrow> getSubstitution m f b t = t"
  by (induction m f b t rule: getSubstitution.induct) auto

lemma jsReplace_no_dollar:
  assumes "CHR ''$'' \<notin> set replaceValue" and "findSubstring searchValue str = Some (front, back)"
  shows "jsReplace str searchValue replaceValue = front @ replaceValue @ back"
  using assms by (simp add: jsReplace_def getSubstitution_no_dollar)

lemma findSubstring_splits:
  "findSubstring pat s = Some (front, back) \<Longrightarrow> s = front @ pat @ back"
proof (induction s arbitrary: front)
  case Nil
  then show ?case by (simp split: if_splits)
next
  case (Cons c cs)
  show ?case
  proof (cases "prefix pat (c # cs)")
    case True
    with Cons.prems have "front = []" "back = drop (length pat) (c # cs)" by simp_all
    with True show ?thesis by (auto simp: prefix_def)
  next
    case False
    with Cons.prems obtain f where "findSubstring pat cs = Some (f, back)" "front = c # f"
      by auto
    with Cons.IH show ?thesis by simp
  qed
qed

text \<open>
  With no \<open>$\<close> in the alt text, a converted reference is the first occurrence of its
  text replaced by \<open>![<alt>](<dataUri>)\<close>, and nothing else changes.
\<close>

lemma converted_without_dollar:
  assumes local: "\<not> isRemoteImage (imagePath m)"
      and supported: "isSupportedImageFormat (imagePath m)"
      and conv: "convertImageToBase64 fs
                   (if isAbsolute (imagePath m) then imagePath m
                    else resolve cwd dir (imagePath m)) = cr"
      and uri: "dataUri cr = Some uri" and ok: "success cr"
      and alt: "CHR ''$'' \<notin> set (altText m)"
      and found: "findSubstring (originalMarkdown m) c = Some (f, b)"
  shows "c = f @ originalMarkdown m @ b
       \<and> processImage (\<lambda>p. Inr (convertImageToBase64 fs p)) cwd dir m (c, r)
           = (f @ (''!['' @ altText m @ '']('' @ uri @ '')'') @ b,
              r\<lparr>convertedImages := convertedImages r + 1\<rparr>)"
proof -
  from conv uri have nd: "CHR ''$'' \<notin> set uri"
    using codec_uri_no_dollar by blast
  from conv uri have ne: "uri \<noteq> []"
    by (auto simp: convertImageToBase64_def failed_def generateDataUriFromPath_def
        getImageMimeType_def generateDataUri_def split: if_splits option.splits fentry.splits)
  have called: "(\<lambda>p. Inr (convertImageToBase64 fs p))
                   (if isAbsolute (imagePath m) then imagePath m
                    else resolve cwd dir (imagePath m)) = Inr cr"
    by (simp only: conv)
  from alt nd have "CHR ''$'' \<notin> set (''!['' @ altText m @ '']('' @ uri @ '')'')"
    by simp
  from jsReplace_no_dollar[OF this found]
  have rep: "jsReplace c (originalMarkdown m) (''!['' @ altText m @ '']('' @ uri @ '')'')
               = f @ (''!['' @ altText m @ '']('' @ uri @ '')'') @ b" .
  from processImage_converted[where cv = "\<lambda>p. Inr (convertImageToBase64 fs p)"
      and c = c and r = r, OF local supported called uri ok ne]
  have "processImage (\<lambda>p. Inr (convertImageToBase64 fs p)) cwd dir m (c, r)
           = (f @ (''!['' @ altText m @ '']('' @ uri @ '')'') @ b,
              r\<lparr>convertedImages := convertedImages r + 1\<rparr>)"
    by (simp only: rep)
  with findSubstring_splits[OF found] show ?thesis by blast
qed

section \<open>The file loop, one file at a time\<close>

lemma processFile_rewrite_throws:
  assumes "rewrite (fileContent mdFile) (absolutePath mdFile) = Inl msg"
  shows "processFile rewrite wr mdFile st =
           st\<lparr>failedFiles := failedFiles st + 1,
              aggregate :=
                pushError (''Failed to process file '' @ relativePath mdFile @ '': '' @ msg)
                  (pushError (''Error processing file '' @ relativePath mdFile @ '': '' @ msg)
                     (aggregate st)),
              statistics := logFileProcessingError (logError (statistics st))\<rparr>"
  using assms by (simp add: processFile_def processMarkdownFile_def)

lemma processFile_write_throws:
  assumes "rewrite (fileContent mdFile) (absolutePath mdFile) = Inr r"
      and "wr (relativePath mdFile) (content r) = Some msg"
  shows "processFile rewrite wr mdFile st =
           st\<lparr>failedFiles := failedFiles st + 1,
              aggregate :=
                pushError (''Failed to process file '' @ relativePath mdFile @ '': '' @ msg)
                  (pushError (''Error processing file '' @ relativePath mdFile @ '': '' @ msg)
                     (pushError
                        (''Failed to write converted file '' @ relativePath mdFile @ '': '' @ msg)
                        (accumulate r (aggregate st)))),
              statistics := logFileProcessingError (logError (logError (statistics st)))\<rparr>"
  using assms by (simp add: processFile_def processMarkdownFile_def Let_def)

lemma processFile_written:
  assumes "rewrite (fileContent mdFile) (absolutePath mdFile) = Inr r"
      and "wr (relativePath mdFile) (content r) = None"
  shows "processFile rewrite wr mdFile st =
           st\<lparr>aggregate := accumulate r (aggregate st),
              written := written st @ [(relativePath mdFile, content r)],
              processedFiles := processedFiles st + 1,
              statistics :=
                logFileProcessingSuccess (convertedImages r) (skippedImages r) (statistics st)\<rparr>"
  using assms by (simp add: processFile_def processMarkdownFile_def Let_def)

lemma errors_pushError [simp]: "errors (pushError e a) = errors a @ [e]"
  by (simp add: pushError_def)

lemma counts_pushError [simp]:
  "convertedImages (pushError e a) = convertedImages a"
  "skippedImages (pushError e a) = skippedImages a"
  "warnings (pushError e a) = warnings a"
  "totalFiles (pushError e a) = totalFiles a"
  by (simp_all add: pushError_def)

lemma accumulate_simps [simp]:
  "convertedImages (accumulate r a) = convertedImages a + convertedImages r"
  "skippedImages (accumulate r a) = skippedImages a + skippedImages r"
  "warnings (accumulate r a) = warnings a @ warnings r"
  "errors (accumulate r a) = errors a @ errors r"
  "totalFiles (accumulate r a) = totalFiles a"
  by (simp_all add: accumulate_def)

lemma processFile_counters:
  "processedFiles (processFile rw wr f st) + failedFiles (processFile rw wr f st)
     = processedFiles st + failedFiles st + 1"
proof (cases "rw (fileContent f) (absolutePath f)")
  case (Inl msg)
  then show ?thesis by (simp add: processFile_rewrite_throws)
next
  case (Inr r)
  then show ?thesis
    by (cases "wr (relativePath f) (content r)")
       (simp_all add: processFile_written processFile_write_throws)
qed

lemma processFile_totalFiles:
  "totalFiles (aggregate (processFile rw wr f st)) = totalFiles (aggregate st)"
proof (cases "rw (fileContent f) (absolutePath f)")
  case (Inl msg)
  then show ?thesis by (simp add: processFile_rewrite_throws)
next
  case (Inr r)
  then show ?thesis
    by (cases "wr (relativePath f) (content r)")
       (simp_all add: processFile_written processFile_write_throws)
qed

lemma processFile_errors_mono:
  "set (errors (aggregate st)) \<subseteq> set (errors (aggregate (processFile rw wr f st)))"
proof (cases "rw (fileContent f) (absolutePath f)")
  case (Inl msg)
  then show ?thesis by (auto simp: processFile_rewrite_throws)
next
  case (Inr r)
  then show ?thesis
    by (cases "wr (relativePath f) (content r)")
       (auto simp: processFile_written processFile_write_throws)
qed

lemma processFile_written_mono:
  "set (written st) \<subseteq> set (written (processFile rw wr f st))"
proof (cases "rw (fileContent f) (absolutePath f)")
  case (Inl msg)
  then show ?thesis by (simp add: processFile_rewrite_throws)
next
  case (Inr r)
  then show ?thesis
    by (cases "wr (relativePath f) (content r)")
       (auto simp: processFile_written processFile_write_throws)
qed

lemma processFile_written_accepted:
  assumes "\<And>p c. (p, c) \<in> set (written st) \<Longrightarrow> wr p c = None"
      and "(p, c) \<in> set (written (processFile rw wr f st))"
  shows "wr p c = None"
proof (cases "rw (fileContent f) (absolutePath f)")
  case (Inl msg)
  with assms show ?thesis by (simp add: processFile_rewrite_throws)
next
  case (Inr r)
  with assms show ?thesis
    by (cases "wr (relativePath f) (content r)")
       (auto simp: processFile_written processFile_write_throws)
qed

lemma processFile_written_length:
  "length (written (processFile rw wr f st)) - processedFiles (processFile rw wr f st)
     = length (written st) - processedFiles st
   \<and> (length (written st) = processedFiles st \<longrightarrow>
        length (written (processFile rw wr f st)) = processedFiles (processFile rw wr f st))"
proof (cases "rw (fileContent f) (absolutePath f)")
  case (Inl msg)
  then show ?thesis by (simp add: processFile_rewrite_throws)
next
  case (Inr r)
  then show ?thesis
    by (cases "wr (relativePath f) (content r)")
       (simp_all add: processFile_written processFile_write_throws)
qed

section \<open>The file loop, a whole run\<close>

lemma processFiles_counters:
  "processedFiles (processFiles rw wr fs st) + failedFiles (processFiles rw wr fs st)
     = processedFiles st + failedFiles st + length fs"
  by (induction fs arbitrary: st) (simp_all add: processFile_counters)

lemma processFiles_totalFiles:
  "totalFiles (aggregate (processFiles rw wr fs st)) = totalFiles (aggregate st)"
  by (induction fs arbitrary: st) (simp_all add: processFile_totalFiles)

lemma processFiles_errors_mono:
  "set (errors (aggregate st)) \<subseteq> set (errors (aggregate (processFiles rw wr fs st)))"
proof (induction fs arbitrary: st)
  case Nil
  show ?case by simp
next
  case (Cons f fs)
  show ?case
    using processFile_errors_mono[of st rw wr f] Cons[of "processFile rw wr f st"] by auto
qed

lemma processFiles_written_mono:
  "set (written st) \<subseteq> set (written (processFiles rw wr fs st))"
proof (induction fs arbitrary: st)
  case Nil
  show ?case by simp
next
  case (Cons f fs)
  show ?case
    using processFile_written_mono[of st rw wr f] Cons[of "processFile rw wr f st"] by auto
qed

lemma processFiles_written_accepted:
  assumes "\<And>p c. (p, c) \<in> set (written st) \<Longrightarrow> wr p c = None"
      and "(p, c) \<in> set (written (processFiles rw wr fs st))"
  shows "wr p c = None"
  using assms
proof (induction fs arbitrary: st)
  case Nil
  then show ?case by simp
next
  case (Cons f fs)
  show ?case
  proof (rule Cons.IH[of "processFile rw wr f st"])
    fix p' c'
    assume "(p', c') \<in> set (written (processFile rw wr f st))"
    with Cons.prems(1) show "wr p' c' = None"
      by (blast intro: processFile_written_accepted)
  next
    from Cons.prems(2) show "(p, c) \<in> set (written (processFiles rw wr fs (processFile rw wr f st)))"
      by simp
  qed
qed

lemma processFiles_written_length:
  "length (written st) = processedFiles st \<Longrightarrow>
     length (written (processFiles rw wr fs st)) = processedFiles (processFiles rw wr fs st)"
  by (induction fs arbitrary: st) (simp_all add: processFile_written_length)

lemma processFiles_each_rewrite_throws:
  assumes "f \<in> set fs" and "rw (fileContent f) (absolutePath f) = Inl msg"
  shows "''Failed to process file '' @ relativePath f @ '': '' @ msg
           \<in> set (errors (aggregate (processFiles rw wr fs st)))"
  using assms(1)
proof (induction fs arbitrary: st)
  case Nil
  then show ?case by simp
next
  case (Cons g fs)
  show ?case
  proof (cases "f = g")
    case True
    have "''Failed to process file '' @ relativePath f @ '': '' @ msg
            \<in> set (errors (aggregate (processFile rw wr f st)))"
      by (simp add: processFile_rewrite_throws[where rewrite = rw, OF assms(2)])
    with processFiles_errors_mono[of "processFile rw wr f st" rw wr fs] True
    show ?thesis by auto
  next
    case False
    with Cons.prems have "f \<in> set fs" by simp
    then show ?thesis using Cons.IH by simp
  qed
qed

lemma processFiles_each_write_throws:
  assumes "f \<in> set fs" and "rw (fileContent f) (absolutePath f) = Inr r"
      and "wr (relativePath f) (content r) = Some msg"
  shows "''Failed to process file '' @ relativePath f @ '': '' @ msg
           \<in> set (errors (aggregate (processFiles rw wr fs st)))"
  using assms(1)
proof (induction fs arbitrary: st)
  case Nil
  then show ?case by simp
next
  case (Cons g fs)
  show ?case
  proof (cases "f = g")
    case True
    have "''Failed to process file '' @ relativePath f @ '': '' @ msg
            \<in> set (errors (aggregate (processFile rw wr f st)))"
      by (simp add: processFile_write_throws[where rewrite = rw and wr = wr, OF assms(2) assms(3)])
    with processFiles_errors_mono[of "processFile rw wr f st" rw wr fs] True
    show ?thesis by auto
  next
    case False
    with Cons.prems have "f \<in> set fs" by simp
    then show ?thesis using Cons.IH by simp
  qed
qed

lemma processFiles_each_written:
  assumes "f \<in> set fs" and "rw (fileContent f) (absolutePath f) = Inr r"
      and "wr (relativePath f) (content r) = None"
  shows "(relativePath f, content r) \<in> set (written (processFiles rw wr fs st))"
  using assms(1)
proof (induction fs arbitrary: st)
  case Nil
  then show ?case by simp
next
  case (Cons g fs)
  show ?case
  proof (cases "f = g")
    case True
    have "(relativePath f, content r) \<in> set (written (processFile rw wr f st))"
      by (simp add: processFile_written[where rewrite = rw and wr = wr, OF assms(2) assms(3)])
    with processFiles_written_mono[of "processFile rw wr f st" rw wr fs] True
    show ?thesis by auto
  next
    case False
    with Cons.prems have "f \<in> set fs" by simp
    then show ?thesis using Cons.IH by simp
  qed
qed

lemma processFile_errors_exact:
  "errors (aggregate (processFile rw wr f st))
     = errors (aggregate st)
       @ (case rw (fileContent f) (absolutePath f) of
            Inl msg \<Rightarrow>
              [''Error processing file '' @ relativePath f @ '': '' @ msg,
               ''Failed to process file '' @ relativePath f @ '': '' @ msg]
          | Inr r \<Rightarrow>
              errors r
              @ (case wr (relativePath f) (content r) of
                   None \<Rightarrow> []
                 | Some msg \<Rightarrow>
                     [''Failed to write converted file '' @ relativePath f @ '': '' @ msg,
                      ''Error processing file '' @ relativePath f @ '': '' @ msg,
                      ''Failed to process file '' @ relativePath f @ '': '' @ msg]))"
proof (cases "rw (fileContent f) (absolutePath f)")
  case (Inl msg)
  then show ?thesis by (simp add: processFile_rewrite_throws)
next
  case (Inr r)
  then show ?thesis
    by (cases "wr (relativePath f) (content r)")
       (simp_all add: processFile_written processFile_write_throws)
qed

lemma processFile_written_exact:
  "written (processFile rw wr f st)
     = written st
       @ (case rw (fileContent f) (absolutePath f) of
            Inl msg \<Rightarrow> []
          | Inr r \<Rightarrow>
              (case wr (relativePath f) (content r) of
                 None \<Rightarrow> [(relativePath f, content r)]
               | Some msg \<Rightarrow> []))"
proof (cases "rw (fileContent f) (absolutePath f)")
  case (Inl msg)
  then show ?thesis by (simp add: processFile_rewrite_throws)
next
  case (Inr r)
  then show ?thesis
    by (cases "wr (relativePath f) (content r)")
       (simp_all add: processFile_written processFile_write_throws)
qed

lemma processFile_failedFiles_exact:
  "failedFiles (processFile rw wr f st)
     = failedFiles st
       + (if (case rw (fileContent f) (absolutePath f) of
                Inl msg \<Rightarrow> True
              | Inr r \<Rightarrow> wr (relativePath f) (content r) \<noteq> None)
          then 1 else 0)"
proof (cases "rw (fileContent f) (absolutePath f)")
  case (Inl msg)
  then show ?thesis by (simp add: processFile_rewrite_throws)
next
  case (Inr r)
  then show ?thesis
    by (cases "wr (relativePath f) (content r)")
       (simp_all add: processFile_written processFile_write_throws)
qed

lemma processFile_processedFiles_exact:
  "processedFiles (processFile rw wr f st)
     = processedFiles st
       + (if (case rw (fileContent f) (absolutePath f) of
                Inl msg \<Rightarrow> True
              | Inr r \<Rightarrow> wr (relativePath f) (content r) \<noteq> None)
          then 0 else 1)"
proof (cases "rw (fileContent f) (absolutePath f)")
  case (Inl msg)
  then show ?thesis by (simp add: processFile_rewrite_throws)
next
  case (Inr r)
  then show ?thesis
    by (cases "wr (relativePath f) (content r)")
       (simp_all add: processFile_written processFile_write_throws)
qed

lemma processFiles_errors_exact:
  "errors (aggregate (processFiles rw wr fs st))
     = errors (aggregate st)
       @ concat (map (\<lambda>f. case rw (fileContent f) (absolutePath f) of
            Inl msg \<Rightarrow>
              [''Error processing file '' @ relativePath f @ '': '' @ msg,
               ''Failed to process file '' @ relativePath f @ '': '' @ msg]
          | Inr r \<Rightarrow>
              errors r
              @ (case wr (relativePath f) (content r) of
                   None \<Rightarrow> []
                 | Some msg \<Rightarrow>
                     [''Failed to write converted file '' @ relativePath f @ '': '' @ msg,
                      ''Error processing file '' @ relativePath f @ '': '' @ msg,
                      ''Failed to process file '' @ relativePath f @ '': '' @ msg])) fs)"
proof (induction fs arbitrary: st)
  case Nil
  show ?case by simp
next
  case (Cons f fs)
  show ?case
    by (simp only: processFiles.simps Cons.IH processFile_errors_exact list.map concat.simps
        append_assoc)
qed

lemma processFiles_written_exact:
  "written (processFiles rw wr fs st)
     = written st
       @ concat (map (\<lambda>f. case rw (fileContent f) (absolutePath f) of
            Inl msg \<Rightarrow> []
          | Inr r \<Rightarrow>
              (case wr (relativePath f) (content r) of
                 None \<Rightarrow> [(relativePath f, content r)]
               | Some msg \<Rightarrow> [])) fs)"
proof (induction fs arbitrary: st)
  case Nil
  show ?case by simp
next
  case (Cons f fs)
  show ?case
    by (simp only: processFiles.simps Cons.IH processFile_written_exact list.map concat.simps
        append_assoc)
qed

lemma processFiles_failedFiles_exact:
  "failedFiles (processFiles rw wr fs st)
     = failedFiles st
       + length (filter (\<lambda>f. case rw (fileContent f) (absolutePath f) of
                Inl msg \<Rightarrow> True
              | Inr r \<Rightarrow> wr (relativePath f) (content r) \<noteq> None) fs)"
proof (induction fs arbitrary: st)
  case Nil
  show ?case by simp
next
  case (Cons f fs)
  show ?case
    by (simp add: Cons.IH processFile_failedFiles_exact)
qed

lemma processFiles_processedFiles_exact:
  "processedFiles (processFiles rw wr fs st)
     = processedFiles st
       + length (filter (\<lambda>f. \<not> (case rw (fileContent f) (absolutePath f) of
                Inl msg \<Rightarrow> True
              | Inr r \<Rightarrow> wr (relativePath f) (content r) \<noteq> None)) fs)"
proof (induction fs arbitrary: st)
  case Nil
  show ?case by simp
next
  case (Cons f fs)
  show ?case
    by (simp add: Cons.IH processFile_processedFiles_exact)
qed

section \<open>The scan\<close>

text \<open>
  A markdown file that cannot be read leaves the scan of its directory as if it were not
  there, whatever comes before and after it in the listing.
\<close>

lemma scanEntries_append:
  "scanEntries root dir (xs @ ys) = scanEntries root dir xs @ scanEntries root dir ys"
proof (induction xs)
  case Nil
  show ?case by simp
next
  case (Cons x xs)
  then show ?case by (cases x) simp
qed

lemma scanEntries_unreadable_file:
  "scanEntries root dir (es1 @ (name, FileNode (Inl readError)) # es2)
     = scanEntries root dir (es1 @ es2)"
  by (simp add: scanEntries_append)

lemma scanMarkdownFiles_unreadable_file:
  "scanMarkdownFiles cwd sourceDir (Found (DirNode (es1 @ (name, FileNode (Inl readError)) # es2)))
     = scanMarkdownFiles cwd sourceDir (Found (DirNode (es1 @ es2)))"
  by (simp add: scanMarkdownFiles_def Let_def scanEntries_unreadable_file)

section \<open>Some documents, evaluated\<close>

lemma convertMarkdownImages_plain_A:
  "convertMarkdownImages (\<lambda>p. None) ''/'' ''# A'' ''/d/a.md''
     = \<lparr>convertedImages = 0, skippedImages = 0, warnings = [], errors = [], content = ''# A''\<rparr>"
  by (simp add: convertMarkdownImages_def convertMarkdownImagesWith_def matchImageAt_def)

lemma convertMarkdownImages_plain_B:
  "convertMarkdownImages (\<lambda>p. None) ''/'' ''# B'' ''/d/b.md''
     = \<lparr>convertedImages = 0, skippedImages = 0, warnings = [], errors = [], content = ''# B''\<rparr>"
  by (simp add: convertMarkdownImages_def convertMarkdownImagesWith_def matchImageAt_def)

lemma convertMarkdownImages_remote_only:
  "convertMarkdownImages (\<lambda>p. None) ''/'' ''![r](https://x/y.png)'' ''/d/b.md''
     = \<lparr>convertedImages = 0, skippedImages = 1,
        warnings = [''Skipped remote image: https://x/y.png''], errors = [],
        content = ''![r](https://x/y.png)''\<rparr>"
  by (simp add: convertMarkdownImages_def convertMarkdownImagesWith_def matchImageAt_def
      processImage_def isRemoteImage_def skipWithWarning_def)

lemma findImages_local_and_remote:
  "findImages ''![a](a.png) ![r](https://x/y.png)''
     = [\<lparr>originalMarkdown = ''![a](a.png)'', altText = ''a'', imagePath = ''a.png''\<rparr>,
        \<lparr>originalMarkdown = ''![r](https://x/y.png)'', altText = ''r'',
          imagePath = ''https://x/y.png''\<rparr>]"
  by (simp add: matchImageAt_def)

lemma findImages_two_remote:
  "findImages ''![s](https://x/y.png) ![h](http://x/z.jpg)''
     = [\<lparr>originalMarkdown = ''![s](https://x/y.png)'', altText = ''s'',
          imagePath = ''https://x/y.png''\<rparr>,
        \<lparr>originalMarkdown = ''![h](http://x/z.jpg)'', altText = ''h'',
          imagePath = ''http://x/z.jpg''\<rparr>]"
  by (simp add: matchImageAt_def)

lemma findImages_two_local_and_remote:
  "findImages ''![a](a.png) ![b](b.png) ![r](https://x/y.png)''
     = [\<lparr>originalMarkdown = ''![a](a.png)'', altText = ''a'', imagePath = ''a.png''\<rparr>,
        \<lparr>originalMarkdown = ''![b](b.png)'', altText = ''b'', imagePath = ''b.png''\<rparr>,
        \<lparr>originalMarkdown = ''![r](https://x/y.png)'', altText = ''r'',
          imagePath = ''https://x/y.png''\<rparr>]"
  by (simp add: matchImageAt_def)

lemma ftp_doc_value:
  "convertMarkdownImages (\<lambda>p. if p = ''/d/ftp:/h/y.png'' then Some (Readable [0x89]) else None)
       ''/'' ''![f](ftp://h/y.png)'' ''/d/doc.md''
   = \<lparr>convertedImages = 1, skippedImages = 0, warnings = [], errors = [],
       content = ''![f](data:image/png;base64,iQ==)''\<rparr>"
  by code_simp

lemma png_header_base64: "base64Encode [0x89, 0x50, 0x4E, 0x47] = ''iVBORw==''"
  by code_simp

section \<open>The aggregate and the logger\<close>

text \<open>
  The aggregate takes the counts of a rewritten file before the write is tried; the
  logger takes them when \<open>processMarkdownFile\<close> has returned. For a file whose write
  throws the two disagree: the aggregate has its skipped image, the statistics of the
  logger have none.
\<close>

lemma write_failure_counts_diverge:
  "failedFiles (convert (\<lambda>p. None) ''/'' ''/d''
       (Inr [\<lparr>relativePath = ''b.md'', absolutePath = ''/d/b.md'',
              fileContent = ''![r](https://x/y.png)''\<rparr>])
       None (\<lambda>r c. Some ''EACCES'')) = 1
   \<and> skippedImages (aggregate (convert (\<lambda>p. None) ''/'' ''/d''
       (Inr [\<lparr>relativePath = ''b.md'', absolutePath = ''/d/b.md'',
              fileContent = ''![r](https://x/y.png)''\<rparr>])
       None (\<lambda>r c. Some ''EACCES''))) = 1
   \<and> imagesSkipped (statistics (convert (\<lambda>p. None) ''/'' ''/d''
       (Inr [\<lparr>relativePath = ''b.md'', absolutePath = ''/d/b.md'',
              fileContent = ''![r](https://x/y.png)''\<rparr>])
       None (\<lambda>r c. Some ''EACCES''))) = 0
   \<and> filesSkipped (statistics (convert (\<lambda>p. None) ''/'' ''/d''
       (Inr [\<lparr>relativePath = ''b.md'', absolutePath = ''/d/b.md'',
              fileContent = ''![r](https://x/y.png)''\<rparr>])
       None (\<lambda>r c. Some ''EACCES''))) = 1"
  by code_simp

section \<open>File-scoped failures\<close>

text \<open>
  C1, as the code has it. A file whose rewrite step throws leaves
  \<open>Error processing file <relativePath>: <message>\<close> and
  \<open>Failed to process file <relativePath>: <message>\<close> in the aggregate \<open>errors\<close> and
  changes nothing else of the aggregate, so it adds nothing to \<open>convertedImages\<close> and
  \<open>skippedImages\<close>. A file whose write step throws leaves its three messages, each with
  the relative path and the message, after the errors of its rewrite. In both cases the
  loop goes on with the next file. A markdown file whose read throws during the scan is
  left out of the list of files: the scan of its directory, and the whole run, are those
  of the tree without that file, so it leaves nothing in \<open>errors\<close> and adds nothing to
  the counts.
\<close>

theorem file_failure_recorded:
  "(rewrite (fileContent f) (absolutePath f) = Inl msg \<longrightarrow>
      aggregate (processFile rewrite wr f st)
        = (aggregate st)\<lparr>errors := errors (aggregate st)
            @ [''Error processing file '' @ relativePath f @ '': '' @ msg,
               ''Failed to process file '' @ relativePath f @ '': '' @ msg]\<rparr>)
   \<and> (\<forall>r. rewrite (fileContent f) (absolutePath f) = Inr r
            \<and> wr (relativePath f) (content r) = Some msg \<longrightarrow>
      errors (aggregate (processFile rewrite wr f st))
        = errors (aggregate st) @ errors r
            @ [''Failed to write converted file '' @ relativePath f @ '': '' @ msg,
               ''Error processing file '' @ relativePath f @ '': '' @ msg,
               ''Failed to process file '' @ relativePath f @ '': '' @ msg])
   \<and> processFiles rewrite wr (f # rest) st
       = processFiles rewrite wr rest (processFile rewrite wr f st)
   \<and> scanEntries root dir (es1 @ (name, FileNode (Inl readError)) # es2)
       = scanEntries root dir (es1 @ es2)
   \<and> convertDirectory fs cwd sourceDir
         (Found (DirNode (es1 @ (name, FileNode (Inl readError)) # es2))) created writeMarkdownFile
       = convertDirectory fs cwd sourceDir (Found (DirNode (es1 @ es2))) created writeMarkdownFile"
proof -
  have thrown: "aggregate (processFile rewrite wr f st)
        = (aggregate st)\<lparr>errors := errors (aggregate st)
            @ [''Error processing file '' @ relativePath f @ '': '' @ msg,
               ''Failed to process file '' @ relativePath f @ '': '' @ msg]\<rparr>"
    if "rewrite (fileContent f) (absolutePath f) = Inl msg"
    using that by (simp add: processFile_rewrite_throws pushError_def)
  have unwritten: "errors (aggregate (processFile rewrite wr f st))
        = errors (aggregate st) @ errors r
            @ [''Failed to write converted file '' @ relativePath f @ '': '' @ msg,
               ''Error processing file '' @ relativePath f @ '': '' @ msg,
               ''Failed to process file '' @ relativePath f @ '': '' @ msg]"
    if "rewrite (fileContent f) (absolutePath f) = Inr r"
      and "wr (relativePath f) (content r) = Some msg" for r
    using that by (simp add: processFile_write_throws)
  have next_file: "processFiles rewrite wr (f # rest) st
       = processFiles rewrite wr rest (processFile rewrite wr f st)"
    by simp
  have dropped: "scanEntries root dir (es1 @ (name, FileNode (Inl readError)) # es2)
       = scanEntries root dir (es1 @ es2)"
    by (rule scanEntries_unreadable_file)
  have same_run: "convertDirectory fs cwd sourceDir
         (Found (DirNode (es1 @ (name, FileNode (Inl readError)) # es2))) created writeMarkdownFile
       = convertDirectory fs cwd sourceDir (Found (DirNode (es1 @ es2))) created writeMarkdownFile"
    by (simp only: convertDirectory_def scanMarkdownFiles_unreadable_file)
  from thrown unwritten next_file dropped same_run show ?thesis by blast
qed

theorem file_failure_recorded_witness:
  "aggregate (processFile (\<lambda>c p. Inl ''boom'') (\<lambda>r c. None)
       \<lparr>relativePath = ''a.md'', absolutePath = ''/d/a.md'', fileContent = ''# A''\<rparr>
       initialState)
     = \<lparr>convertedImages = 0, skippedImages = 0, warnings = [],
        errors = [''Error processing file a.md: boom'', ''Failed to process file a.md: boom''],
        totalFiles = 0\<rparr>
   \<and> errors (aggregate (processFile
       (\<lambda>c p. Inr (convertMarkdownImages (\<lambda>p. None) ''/'' c p)) (\<lambda>r c. Some ''EACCES'')
       \<lparr>relativePath = ''b.md'', absolutePath = ''/d/b.md'',
          fileContent = ''![r](https://x/y.png)''\<rparr>
       initialState))
     = [''Failed to write converted file b.md: EACCES'',
        ''Error processing file b.md: EACCES'',
        ''Failed to process file b.md: EACCES'']
   \<and> errors (aggregate (convertDirectory (\<lambda>p. None) ''/'' ''/src''
       (Found (DirNode [(''a.md'', FileNode (Inl ''EACCES'')), (''b.md'', FileNode (Inr ''# B''))]))
       None (\<lambda>r c. None))) = []
   \<and> written (convertDirectory (\<lambda>p. None) ''/'' ''/src''
       (Found (DirNode [(''a.md'', FileNode (Inl ''EACCES'')), (''b.md'', FileNode (Inr ''# B''))]))
       None (\<lambda>r c. None)) = [(''b.md'', ''# B'')]"
proof -
  let ?R1 = "\<lambda>(c::string) (p::string). (Inl ''boom'' :: string + MarkdownConversionResult)"
  let ?R2 = "\<lambda>c p. Inr (convertMarkdownImages (\<lambda>p. None) ''/'' c p)"
  let ?W1 = "\<lambda>(r::string) (c::string). (None :: string option)"
  let ?W2 = "\<lambda>(r::string) (c::string). Some ''EACCES''"
  let ?A = "\<lparr>relativePath = ''a.md'', absolutePath = ''/d/a.md'', fileContent = ''# A''\<rparr>"
  let ?B = "\<lparr>relativePath = ''b.md'', absolutePath = ''/d/b.md'',
              fileContent = ''![r](https://x/y.png)''\<rparr>"
  let ?es = "[(''b.md'', FileNode (Inr ''# B''))]"
  note thrown = file_failure_recorded[where rewrite = ?R1 and wr = ?W1 and f = ?A
      and msg = "''boom''" and st = initialState and rest = "[]" and root = "''/src''"
      and dir = "''/src''" and ?es1.0 = "[]" and name = "''a.md''" and readError = "''EACCES''"
      and ?es2.0 = ?es and fs = "\<lambda>p. None" and cwd = "''/''" and sourceDir = "''/src''"
      and created = None and writeMarkdownFile = ?W1]
  note unwritten = file_failure_recorded[where rewrite = ?R2 and wr = ?W2 and f = ?B
      and msg = "''EACCES''" and st = initialState and rest = "[]" and root = "''/src''"
      and dir = "''/src''" and ?es1.0 = "[]" and name = "''a.md''" and readError = "''EACCES''"
      and ?es2.0 = ?es and fs = "\<lambda>p. None" and cwd = "''/''" and sourceDir = "''/src''"
      and created = None and writeMarkdownFile = ?W1]
  have c1: "aggregate (processFile ?R1 ?W1 ?A initialState)
     = \<lparr>convertedImages = 0, skippedImages = 0, warnings = [],
        errors = [''Error processing file a.md: boom'', ''Failed to process file a.md: boom''],
        totalFiles = 0\<rparr>"
    using thrown by (simp add: initialState_def)
  have c2: "errors (aggregate (processFile ?R2 ?W2 ?B initialState))
     = [''Failed to write converted file b.md: EACCES'',
        ''Error processing file b.md: EACCES'',
        ''Failed to process file b.md: EACCES'']"
    using unwritten by (simp add: initialState_def convertMarkdownImages_remote_only)
  have same: "convertDirectory (\<lambda>p. None) ''/'' ''/src''
         (Found (DirNode ((''a.md'', FileNode (Inl ''EACCES'')) # ?es))) None ?W1
       = convertDirectory (\<lambda>p. None) ''/'' ''/src'' (Found (DirNode ?es)) None ?W1"
    using thrown by (simp only: append_Nil)
  have e: "errors (aggregate (convertDirectory (\<lambda>p. None) ''/'' ''/src''
             (Found (DirNode ?es)) None ?W1)) = []"
    by code_simp
  have w: "written (convertDirectory (\<lambda>p. None) ''/'' ''/src''
             (Found (DirNode ?es)) None ?W1) = [(''b.md'', ''# B'')]"
    by code_simp
  from c1 c2 e w show ?thesis by (simp only: same simp_thms)
qed

text \<open>
  C1 as stated fails: \<open>x.md\<close> cannot be read, the run goes on with \<open>y.md\<close> alone, and
  the aggregate \<open>errors\<close> is empty.
\<close>

theorem unreadable_file_not_recorded:
  "scanMarkdownFiles ''/'' ''/src''
       (Found (DirNode [(''x.md'', FileNode (Inl ''EACCES: permission denied'')),
                        (''y.md'', FileNode (Inr ''# Y''))]))
     = Inr [\<lparr>relativePath = ''y.md'', absolutePath = ''/src/y.md'', fileContent = ''# Y''\<rparr>]
   \<and> errors (aggregate (convertDirectory (\<lambda>p. None) ''/'' ''/src''
       (Found (DirNode [(''x.md'', FileNode (Inl ''EACCES: permission denied'')),
                        (''y.md'', FileNode (Inr ''# Y''))]))
       None (\<lambda>r c. None))) = []
   \<and> totalFiles (aggregate (convertDirectory (\<lambda>p. None) ''/'' ''/src''
       (Found (DirNode [(''x.md'', FileNode (Inl ''EACCES: permission denied'')),
                        (''y.md'', FileNode (Inr ''# Y''))]))
       None (\<lambda>r c. None))) = 1
   \<and> failedFiles (convertDirectory (\<lambda>p. None) ''/'' ''/src''
       (Found (DirNode [(''x.md'', FileNode (Inl ''EACCES: permission denied'')),
                        (''y.md'', FileNode (Inr ''# Y''))]))
       None (\<lambda>r c. None)) = 0
   \<and> written (convertDirectory (\<lambda>p. None) ''/'' ''/src''
       (Found (DirNode [(''x.md'', FileNode (Inl ''EACCES: permission denied'')),
                        (''y.md'', FileNode (Inr ''# Y''))]))
       None (\<lambda>r c. None)) = [(''y.md'', ''# Y'')]"
  by code_simp

text \<open>
  C6. Once the file loop runs (the scan returned the files and the output directory was
  created), an exception of one file, from the rewriter or from the write, never stops
  the run, whatever the rewriter and the write do: every file of the list is reached
  (\<open>totalFiles\<close> and \<open>processedFiles + failedFiles\<close> are the length of the list). The
  aggregate \<open>errors\<close> holds, file by file in the order of the list, the two messages of
  a file whose rewrite throws, and the errors of the rewrite followed by the three
  messages of a file whose write throws. The files written are exactly those whose
  rewrite and write throw nothing, in the order of the list; a file that throws is not
  written and is counted in \<open>failedFiles\<close>, every other file in \<open>processedFiles\<close>.
\<close>

theorem per_file_errors_never_abort:
  assumes st: "st = convertWith sourceDir (Inr files) None rewrite wr"
  shows "totalFiles (aggregate st) = length files
       \<and> processedFiles st + failedFiles st = length files
       \<and> errors (aggregate st)
           = concat (map (\<lambda>f. case rewrite (fileContent f) (absolutePath f) of
                Inl msg \<Rightarrow>
                  [''Error processing file '' @ relativePath f @ '': '' @ msg,
                   ''Failed to process file '' @ relativePath f @ '': '' @ msg]
              | Inr r \<Rightarrow>
                  errors r
                  @ (case wr (relativePath f) (content r) of
                       None \<Rightarrow> []
                     | Some msg \<Rightarrow>
                         [''Failed to write converted file '' @ relativePath f @ '': '' @ msg,
                          ''Error processing file '' @ relativePath f @ '': '' @ msg,
                          ''Failed to process file '' @ relativePath f @ '': '' @ msg])) files)
       \<and> written st
           = concat (map (\<lambda>f. case rewrite (fileContent f) (absolutePath f) of
                Inl msg \<Rightarrow> []
              | Inr r \<Rightarrow>
                  (case wr (relativePath f) (content r) of
                     None \<Rightarrow> [(relativePath f, content r)]
                   | Some msg \<Rightarrow> [])) files)
       \<and> failedFiles st
           = length (filter (\<lambda>f. case rewrite (fileContent f) (absolutePath f) of
                Inl msg \<Rightarrow> True
              | Inr r \<Rightarrow> wr (relativePath f) (content r) \<noteq> None) files)
       \<and> processedFiles st
           = length (filter (\<lambda>f. \<not> (case rewrite (fileContent f) (absolutePath f) of
                Inl msg \<Rightarrow> True
              | Inr r \<Rightarrow> wr (relativePath f) (content r) \<noteq> None)) files)"
proof (cases "files = []")
  case True
  with st show ?thesis by (simp add: convertWith_def initialState_def)
next
  case False
  let ?st0 = "initialState\<lparr>aggregate := (aggregate initialState)\<lparr>totalFiles := length files\<rparr>\<rparr>"
  from False st have run: "st = processFiles rewrite wr files ?st0"
    by (simp add: convertWith_def Let_def)
  have t: "totalFiles (aggregate st) = length files"
    unfolding run by (simp add: processFiles_totalFiles)
  have c: "processedFiles st + failedFiles st = length files"
    unfolding run by (simp add: processFiles_counters initialState_def)
  have e: "errors (aggregate ?st0) = []" and w: "written ?st0 = []"
    and f: "failedFiles ?st0 = 0" and p: "processedFiles ?st0 = 0"
    by (simp_all add: initialState_def)
  show ?thesis
    unfolding run
    using t[unfolded run] c[unfolded run]
    by (simp only: processFiles_errors_exact processFiles_written_exact
        processFiles_failedFiles_exact processFiles_processedFiles_exact e w f p
        append_Nil add_0 simp_thms)
qed

theorem per_file_errors_never_abort_witness:
  "errors (aggregate (convertWith ''/d''
       (Inr [\<lparr>relativePath = ''a.md'', absolutePath = ''/d/a.md'', fileContent = ''# A''\<rparr>,
             \<lparr>relativePath = ''b.md'', absolutePath = ''/d/b.md'', fileContent = ''# B''\<rparr>,
             \<lparr>relativePath = ''c.md'', absolutePath = ''/d/c.md'', fileContent = ''# C''\<rparr>])
       None
       (\<lambda>c p. if p = ''/d/c.md'' then Inl ''boom''
              else Inr (convertMarkdownImages (\<lambda>p. None) ''/'' c p))
       (\<lambda>r c. if r = ''a.md'' then Some ''EACCES'' else None)))
     = [''Failed to write converted file a.md: EACCES'',
        ''Error processing file a.md: EACCES'',
        ''Failed to process file a.md: EACCES'',
        ''Error processing file c.md: boom'',
        ''Failed to process file c.md: boom'']
   \<and> written (convertWith ''/d''
       (Inr [\<lparr>relativePath = ''a.md'', absolutePath = ''/d/a.md'', fileContent = ''# A''\<rparr>,
             \<lparr>relativePath = ''b.md'', absolutePath = ''/d/b.md'', fileContent = ''# B''\<rparr>,
             \<lparr>relativePath = ''c.md'', absolutePath = ''/d/c.md'', fileContent = ''# C''\<rparr>])
       None
       (\<lambda>c p. if p = ''/d/c.md'' then Inl ''boom''
              else Inr (convertMarkdownImages (\<lambda>p. None) ''/'' c p))
       (\<lambda>r c. if r = ''a.md'' then Some ''EACCES'' else None))
     = [(''b.md'', ''# B'')]
   \<and> failedFiles (convertWith ''/d''
       (Inr [\<lparr>relativePath = ''a.md'', absolutePath = ''/d/a.md'', fileContent = ''# A''\<rparr>,
             \<lparr>relativePath = ''b.md'', absolutePath = ''/d/b.md'', fileContent = ''# B''\<rparr>,
             \<lparr>relativePath = ''c.md'', absolutePath = ''/d/c.md'', fileContent = ''# C''\<rparr>])
       None
       (\<lambda>c p. if p = ''/d/c.md'' then Inl ''boom''
              else Inr (convertMarkdownImages (\<lambda>p. None) ''/'' c p))
       (\<lambda>r c. if r = ''a.md'' then Some ''EACCES'' else None)) = 2
   \<and> processedFiles (convertWith ''/d''
       (Inr [\<lparr>relativePath = ''a.md'', absolutePath = ''/d/a.md'', fileContent = ''# A''\<rparr>,
             \<lparr>relativePath = ''b.md'', absolutePath = ''/d/b.md'', fileContent = ''# B''\<rparr>,
             \<lparr>relativePath = ''c.md'', absolutePath = ''/d/c.md'', fileContent = ''# C''\<rparr>])
       None
       (\<lambda>c p. if p = ''/d/c.md'' then Inl ''boom''
              else Inr (convertMarkdownImages (\<lambda>p. None) ''/'' c p))
       (\<lambda>r c. if r = ''a.md'' then Some ''EACCES'' else None)) = 1"
proof -
  let ?R = "\<lambda>c p. if p = ''/d/c.md'' then Inl ''boom''
                 else Inr (convertMarkdownImages (\<lambda>p. None) ''/'' c p)"
  let ?W = "\<lambda>(r::string) (c::string). if r = ''a.md'' then Some ''EACCES'' else None"
  let ?A = "\<lparr>relativePath = ''a.md'', absolutePath = ''/d/a.md'', fileContent = ''# A''\<rparr>"
  let ?B = "\<lparr>relativePath = ''b.md'', absolutePath = ''/d/b.md'', fileContent = ''# B''\<rparr>"
  let ?C = "\<lparr>relativePath = ''c.md'', absolutePath = ''/d/c.md'', fileContent = ''# C''\<rparr>"
  let ?st = "convertWith ''/d'' (Inr [?A, ?B, ?C]) None ?R ?W"
  have st: "?st = convertWith ''/d'' (Inr [?A, ?B, ?C]) None ?R ?W" by (simp only:)
  from per_file_errors_never_abort[OF st] show ?thesis
    by (simp add: convertMarkdownImages_plain_A convertMarkdownImages_plain_B)
qed

text \<open>
  C10. A file whose write step throws leaves exactly three entries in the aggregate
  \<open>errors\<close> for that one failure: one from the catch around \<open>writeMarkdownFile\<close>, one
  from the catch of \<open>processMarkdownFile\<close>, one from the catch of the loop in
  \<open>convert\<close>. The three differ, and \<open>failedFiles\<close> grows by one only, so \<open>errors\<close>
  grows faster than the number of failed files.
\<close>

theorem write_failure_three_errors:
  assumes wr: "writeMarkdownFile (relativePath f)
                 (content (convertMarkdownImages fs cwd (fileContent f) (absolutePath f)))
               = Some msg"
  shows "errors (aggregate (processFile (\<lambda>c p. Inr (convertMarkdownImages fs cwd c p))
                   writeMarkdownFile f st))
         = errors (aggregate st) @
             [''Failed to write converted file '' @ relativePath f @ '': '' @ msg,
              ''Error processing file '' @ relativePath f @ '': '' @ msg,
              ''Failed to process file '' @ relativePath f @ '': '' @ msg]
       \<and> distinct
             [''Failed to write converted file '' @ relativePath f @ '': '' @ msg,
              ''Error processing file '' @ relativePath f @ '': '' @ msg,
              ''Failed to process file '' @ relativePath f @ '': '' @ msg]
       \<and> failedFiles (processFile (\<lambda>c p. Inr (convertMarkdownImages fs cwd c p))
                   writeMarkdownFile f st)
         = failedFiles st + 1
       \<and> length (errors (aggregate (processFile (\<lambda>c p. Inr (convertMarkdownImages fs cwd c p))
                   writeMarkdownFile f st)))
         = length (errors (aggregate st)) + 3"
proof -
  let ?R = "\<lambda>c p. Inr (convertMarkdownImages fs cwd c p)"
  let ?r = "convertMarkdownImages fs cwd (fileContent f) (absolutePath f)"
  have rw: "?R (fileContent f) (absolutePath f) = Inr ?r" by simp
  note step = processFile_write_throws[where rewrite = ?R and wr = writeMarkdownFile
      and st = st, OF rw wr]
  have e: "errors (aggregate (processFile ?R writeMarkdownFile f st))
         = errors (aggregate st) @
             [''Failed to write converted file '' @ relativePath f @ '': '' @ msg,
              ''Error processing file '' @ relativePath f @ '': '' @ msg,
              ''Failed to process file '' @ relativePath f @ '': '' @ msg]"
    by (simp add: step convertMarkdownImages_no_errors)
  have d: "distinct
             [''Failed to write converted file '' @ relativePath f @ '': '' @ msg,
              ''Error processing file '' @ relativePath f @ '': '' @ msg,
              ''Failed to process file '' @ relativePath f @ '': '' @ msg]"
    by simp
  have n: "failedFiles (processFile ?R writeMarkdownFile f st) = failedFiles st + 1"
    by (simp add: step)
  have l: "length (errors (aggregate (processFile ?R writeMarkdownFile f st)))
         = length (errors (aggregate st)) + 3"
    by (simp add: e)
  from e d n l show ?thesis by blast
qed

theorem write_failure_three_errors_witness:
  "errors (aggregate (processFile (\<lambda>c p. Inr (convertMarkdownImages (\<lambda>p. None) ''/'' c p))
       (\<lambda>r c. Some ''EACCES'')
       \<lparr>relativePath = ''a.md'', absolutePath = ''/d/a.md'', fileContent = ''# Title''\<rparr>
       initialState))
     = [''Failed to write converted file a.md: EACCES'',
        ''Error processing file a.md: EACCES'',
        ''Failed to process file a.md: EACCES'']
   \<and> failedFiles (processFile (\<lambda>c p. Inr (convertMarkdownImages (\<lambda>p. None) ''/'' c p))
       (\<lambda>r c. Some ''EACCES'')
       \<lparr>relativePath = ''a.md'', absolutePath = ''/d/a.md'', fileContent = ''# Title''\<rparr>
       initialState) = 1"
proof -
  let ?W = "\<lambda>(r::string) (c::string). Some ''EACCES''"
  let ?F = "\<lparr>relativePath = ''a.md'', absolutePath = ''/d/a.md'', fileContent = ''# Title''\<rparr>"
  have wr: "?W (relativePath ?F)
              (content (convertMarkdownImages (\<lambda>p. None) ''/'' (fileContent ?F) (absolutePath ?F)))
            = Some ''EACCES''"
    by simp
  show ?thesis
    using write_failure_three_errors[where writeMarkdownFile = ?W and f = ?F
        and fs = "\<lambda>p. None" and cwd = "''/''" and st = initialState, OF wr]
    by (simp add: initialState_def)
qed

section \<open>Counts of the rewriter\<close>

text \<open>
  C2, as the code has it. For every document and every behaviour of the codec,
  \<open>convertedImages + skippedImages\<close> is the number of all image references found, the
  local candidates (what \<open>extractImageReferences\<close> returns) and the remote ones together.
  \<open>convertedImages\<close> counts the local references of a supported format that the codec
  turns into a data URI, and no remote one; \<open>skippedImages\<close> counts every remote
  reference and every other local one. The warnings that begin with
  \<open>Skipped remote image: \<close> are those of the remote references, one each, in the order
  of the document.
\<close>

theorem counts_cover_every_reference:
  "convertedImages (convertMarkdownImagesWith cv cwd content0 p)
     + skippedImages (convertMarkdownImagesWith cv cwd content0 p)
     = length (findImages content0)
   \<and> length (findImages content0)
     = length (extractImageReferences cwd content0 p)
       + length (filter (\<lambda>m. isRemoteImage (imagePath m)) (findImages content0))
   \<and> convertedImages (convertMarkdownImagesWith cv cwd content0 p)
     = length (filter (\<lambda>m. \<not> isRemoteImage (imagePath m)
           \<and> isSupportedImageFormat (imagePath m)
           \<and> (case cv (if isAbsolute (imagePath m) then imagePath m
                         else resolve cwd (dirname p) (imagePath m)) of
                  Inl e \<Rightarrow> False
                | Inr cr \<Rightarrow>
                    success cr
                    \<and> (case dataUri cr of None \<Rightarrow> False | Some uri \<Rightarrow> uri \<noteq> [])))
         (findImages content0))
   \<and> skippedImages (convertMarkdownImagesWith cv cwd content0 p)
     = length (filter (\<lambda>m. isRemoteImage (imagePath m)) (findImages content0))
       + length (filter (\<lambda>m. \<not> isRemoteImage (imagePath m)
           \<and> \<not> (isSupportedImageFormat (imagePath m)
           \<and> (case cv (if isAbsolute (imagePath m) then imagePath m
                         else resolve cwd (dirname p) (imagePath m)) of
                  Inl e \<Rightarrow> False
                | Inr cr \<Rightarrow>
                    success cr
                    \<and> (case dataUri cr of None \<Rightarrow> False | Some uri \<Rightarrow> uri \<noteq> []))))
         (findImages content0))
   \<and> filter (prefix ''Skipped remote image: '')
         (warnings (convertMarkdownImagesWith cv cwd content0 p))
     = map (\<lambda>m. ''Skipped remote image: '' @ imagePath m)
         (filter (\<lambda>m. isRemoteImage (imagePath m)) (findImages content0))
   \<and> (\<forall>m \<in> set (findImages content0). isRemoteImage (imagePath m) \<longrightarrow>
        ''Skipped remote image: '' @ imagePath m
          \<in> set (warnings (convertMarkdownImagesWith cv cwd content0 p)))"
proof -
  let ?st0 = "(content0, \<lparr>convertedImages = 0, skippedImages = 0, warnings = [], errors = [],
                          content = content0\<rparr>)"
  let ?R = "convertMarkdownImagesWith cv cwd content0 p"
  let ?remote = "\<lambda>m. isRemoteImage (imagePath m)"
  let ?ok = "\<lambda>m. isSupportedImageFormat (imagePath m)
           \<and> (case cv (if isAbsolute (imagePath m) then imagePath m
                         else resolve cwd (dirname p) (imagePath m)) of
                  Inl e \<Rightarrow> False
                | Inr cr \<Rightarrow>
                    success cr
                    \<and> (case dataUri cr of None \<Rightarrow> False | Some uri \<Rightarrow> uri \<noteq> []))"
  have total: "convertedImages ?R + skippedImages ?R = length (findImages content0)"
    using foldl_processImage_counts[of cv cwd "dirname p" ?st0 "findImages content0"]
    by (simp add: convertMarkdownImagesWith_fold)
  have split: "length (findImages content0)
     = length (extractImageReferences cwd content0 p)
       + length (filter ?remote (findImages content0))"
    using sum_length_filter_compl[of ?remote "findImages content0"]
    by (simp add: length_extractImageReferences)
  have conv: "convertedImages ?R
     = length (filter (\<lambda>m. \<not> ?remote m \<and> ?ok m) (findImages content0))"
  proof -
    have "convertedImages ?R
            = convertedImages (snd (foldl (\<lambda>st m. processImage cv cwd (dirname p) m st) ?st0
                (findImages content0)))"
      by (simp add: convertMarkdownImagesWith_fold)
    also have "\<dots> = length (filter (\<lambda>m. \<not> ?remote m \<and> ?ok m) (findImages content0))"
      by (simp add: foldl_processImage_converted_exact)
    finally show ?thesis .
  qed
  have three: "length (findImages content0)
     = length (filter ?remote (findImages content0))
       + length (filter (\<lambda>m. \<not> ?remote m \<and> ?ok m) (findImages content0))
       + length (filter (\<lambda>m. \<not> ?remote m \<and> \<not> ?ok m) (findImages content0))"
    by (rule length_filter_three)
  have skip: "skippedImages ?R
     = length (filter ?remote (findImages content0))
       + length (filter (\<lambda>m. \<not> ?remote m \<and> \<not> ?ok m) (findImages content0))"
    using total conv three by linarith
  have diag: "filter (prefix ''Skipped remote image: '') (warnings ?R)
     = map (\<lambda>m. ''Skipped remote image: '' @ imagePath m)
         (filter ?remote (findImages content0))"
    using foldl_processImage_remote_warnings[of cv cwd "dirname p" ?st0 "findImages content0"]
    by (simp add: convertMarkdownImagesWith_fold)
  have warned: "''Skipped remote image: '' @ imagePath m \<in> set (warnings ?R)"
    if "m \<in> set (findImages content0)" and "isRemoteImage (imagePath m)" for m
    using foldl_processImage_remote_warned[OF that, of cv cwd "dirname p" ?st0]
    by (simp add: convertMarkdownImagesWith_fold)
  from total split conv skip diag warned show ?thesis by blast
qed

theorem counts_cover_every_reference_witness:
  "convertedImages (convertMarkdownImages
       (\<lambda>p. if p = ''/d/a.png'' then Some (Readable [0x89]) else None) ''/''
       ''![a](a.png) ![b](b.png) ![r](https://x/y.png)'' ''/d/doc.md'') = 1
   \<and> skippedImages (convertMarkdownImages
       (\<lambda>p. if p = ''/d/a.png'' then Some (Readable [0x89]) else None) ''/''
       ''![a](a.png) ![b](b.png) ![r](https://x/y.png)'' ''/d/doc.md'') = 2
   \<and> length (extractImageReferences ''/''
       ''![a](a.png) ![b](b.png) ![r](https://x/y.png)'' ''/d/doc.md'') = 2
   \<and> filter (prefix ''Skipped remote image: '')
       (warnings (convertMarkdownImages
         (\<lambda>p. if p = ''/d/a.png'' then Some (Readable [0x89]) else None) ''/''
         ''![a](a.png) ![b](b.png) ![r](https://x/y.png)'' ''/d/doc.md''))
     = [''Skipped remote image: https://x/y.png'']"
proof -
  let ?fs = "\<lambda>p. if p = ''/d/a.png'' then Some (Readable [0x89::byte]) else None"
  have sa: "isSupportedImageFormat ''a.png''" by code_simp
  have sb: "isSupportedImageFormat ''b.png''" by code_simp
  have aa: "\<not> isAbsolute ''a.png''" by code_simp
  have ab: "\<not> isAbsolute ''b.png''" by code_simp
  have ra: "resolve ''/'' (dirname ''/d/doc.md'') ''a.png'' = ''/d/a.png''" by code_simp
  have rb: "resolve ''/'' (dirname ''/d/doc.md'') ''b.png'' = ''/d/b.png''" by code_simp
  have ca: "convertImageToBase64 ?fs ''/d/a.png''
              = \<lparr>success = True, dataUri = Some ''data:image/png;base64,iQ=='', error = None\<rparr>"
    by code_simp
  have cb: "convertImageToBase64 ?fs ''/d/b.png''
              = \<lparr>success = False, dataUri = None,
                  error = Some ''Image file not found or not readable: /d/b.png''\<rparr>"
    by code_simp
  from counts_cover_every_reference[of "\<lambda>p. Inr (convertImageToBase64 ?fs p)" "''/''"
      "''![a](a.png) ![b](b.png) ![r](https://x/y.png)''" "''/d/doc.md''",
      unfolded findImages_two_local_and_remote]
  show ?thesis
    by (simp add: convertMarkdownImages_def isRemoteImage_def sa sb aa ab ra rb ca cb)
qed

text \<open>
  C2 as stated fails: a document whose only reference is remote has no local candidate,
  and its counts add up to one.
\<close>

theorem remote_reference_counted_as_skipped:
  "convertedImages (convertMarkdownImages (\<lambda>p. None) ''/'' ''![r](https://x/y.png)'' ''/d/b.md'')
     + skippedImages (convertMarkdownImages (\<lambda>p. None) ''/'' ''![r](https://x/y.png)'' ''/d/b.md'')
     = 1
   \<and> length (extractImageReferences ''/'' ''![r](https://x/y.png)'' ''/d/b.md'') = 0"
  by (simp add: convertMarkdownImages_remote_only extractImageReferences_def matchImageAt_def
      isRemoteImage_def)

section \<open>Remote references\<close>

text \<open>
  C3, as the code has it. A path is remote exactly when it begins with \<open>http://\<close> or
  \<open>https://\<close>, and exactly then the rewriter takes its remote branch (one more skipped
  image, the warning \<open>Skipped remote image: <path>\<close>, the text and the codec left alone).
  No other scheme is recognised.
\<close>

theorem remote_iff_http_or_https:
  "(isRemoteImage (imagePath m)
      \<longleftrightarrow> prefix ''http://'' (imagePath m) \<or> prefix ''https://'' (imagePath m))
   \<and> (processImage cv cwd dir m (c, r)
        = (c, skipWithWarning (''Skipped remote image: '' @ imagePath m) r)
      \<longleftrightarrow> prefix ''http://'' (imagePath m) \<or> prefix ''https://'' (imagePath m))"
proof -
  have a: "isRemoteImage (imagePath m)
      \<longleftrightarrow> prefix ''http://'' (imagePath m) \<or> prefix ''https://'' (imagePath m)"
    by (simp add: isRemoteImage_def)
  have b: "processImage cv cwd dir m (c, r)
        = (c, skipWithWarning (''Skipped remote image: '' @ imagePath m) r)"
    if "isRemoteImage (imagePath m)"
    using that by (rule processImage_remote)
  have "warnings (snd (processImage cv cwd dir m (c, r)))
          \<noteq> warnings r @ [''Skipped remote image: '' @ imagePath m]"
    if "\<not> isRemoteImage (imagePath m)"
    using that by (rule processImage_not_remote_warning)
  then have c: "processImage cv cwd dir m (c, r)
        \<noteq> (c, skipWithWarning (''Skipped remote image: '' @ imagePath m) r)"
    if "\<not> isRemoteImage (imagePath m)"
    using that by (metis skipWithWarning_simps(3) snd_conv)
  from a b c show ?thesis by blast
qed

theorem remote_iff_http_or_https_witness:
  "prefix ''https://'' ''https://x/y.png''
   \<and> processImage (\<lambda>p. Inl ''EIO'') ''/'' ''/d''
       \<lparr>originalMarkdown = ''![r](https://x/y.png)'', altText = ''r'',
          imagePath = ''https://x/y.png''\<rparr>
       (''![r](https://x/y.png)'',
        \<lparr>convertedImages = 0, skippedImages = 0, warnings = [], errors = [],
           content = ''![r](https://x/y.png)''\<rparr>)
     = (''![r](https://x/y.png)'',
        \<lparr>convertedImages = 0, skippedImages = 1,
           warnings = [''Skipped remote image: https://x/y.png''], errors = [],
           content = ''![r](https://x/y.png)''\<rparr>)"
  using remote_iff_http_or_https[of
      "\<lparr>originalMarkdown = ''![r](https://x/y.png)'', altText = ''r'',
          imagePath = ''https://x/y.png''\<rparr>"
      "\<lambda>p. Inl ''EIO''" "''/''" "''/d''" "''![r](https://x/y.png)''"
      "\<lparr>convertedImages = 0, skippedImages = 0, warnings = [], errors = [],
           content = ''![r](https://x/y.png)''\<rparr>"]
  by (simp add: skipWithWarning_def)

text \<open>
  C3 as stated fails: a path that begins with \<open>ftp://\<close> is not remote, and the
  extractor returns it among the local references.
\<close>

theorem ftp_reference_is_local:
  "\<not> isRemoteImage ''ftp://example.com/a.png''
   \<and> map imagePath (extractImageReferences ''/'' ''![f](ftp://example.com/a.png)'' ''/d/doc.md'')
       = [''ftp://example.com/a.png'']"
  by (simp add: isRemoteImage_def extractImageReferences_def matchImageAt_def)

text \<open>
  C5, as the code has it. A document whose image references all begin with \<open>http://\<close>
  or \<open>https://\<close> comes back unchanged, with no converted image, one skipped image and
  one warning for each reference, whatever the codec would do.
\<close>

theorem only_http_references_untouched:
  assumes "\<forall>m \<in> set (findImages content0).
             prefix ''http://'' (imagePath m) \<or> prefix ''https://'' (imagePath m)"
  shows "convertedImages (convertMarkdownImagesWith cv cwd content0 p) = 0
       \<and> skippedImages (convertMarkdownImagesWith cv cwd content0 p)
           = length (findImages content0)
       \<and> warnings (convertMarkdownImagesWith cv cwd content0 p)
           = map (\<lambda>m. ''Skipped remote image: '' @ imagePath m) (findImages content0)
       \<and> errors (convertMarkdownImagesWith cv cwd content0 p) = []
       \<and> content (convertMarkdownImagesWith cv cwd content0 p) = content0"
proof -
  from assms have "\<forall>m \<in> set (findImages content0). isRemoteImage (imagePath m)"
    by (simp add: isRemoteImage_def)
  then show ?thesis
    by (simp add: convertMarkdownImagesWith_fold foldl_processImage_all_remote)
qed

theorem only_http_references_untouched_witness:
  "skippedImages (convertMarkdownImages (\<lambda>p. Some (Readable [0x89])) ''/''
       ''![s](https://x/y.png) ![h](http://x/z.jpg)'' ''/d/doc.md'') = 2
   \<and> convertedImages (convertMarkdownImages (\<lambda>p. Some (Readable [0x89])) ''/''
       ''![s](https://x/y.png) ![h](http://x/z.jpg)'' ''/d/doc.md'') = 0
   \<and> content (convertMarkdownImages (\<lambda>p. Some (Readable [0x89])) ''/''
       ''![s](https://x/y.png) ![h](http://x/z.jpg)'' ''/d/doc.md'')
     = ''![s](https://x/y.png) ![h](http://x/z.jpg)''"
proof -
  have h: "\<forall>m \<in> set (findImages ''![s](https://x/y.png) ![h](http://x/z.jpg)'').
             prefix ''http://'' (imagePath m) \<or> prefix ''https://'' (imagePath m)"
    unfolding findImages_two_remote by simp
  show ?thesis
    using only_http_references_untouched[OF h,
        of "\<lambda>p. Inr (convertImageToBase64 (\<lambda>p. Some (Readable [0x89])) p)" "''/''" "''/d/doc.md''",
        unfolded findImages_two_remote]
    by (simp add: convertMarkdownImages_def)
qed

text \<open>
  C5 as stated fails for another scheme: \<open>ftp://h/y.png\<close> is resolved against the
  directory of the document, and the file found there is inlined.
\<close>

theorem ftp_reference_converted:
  "convertedImages
       (convertMarkdownImages
          (\<lambda>p. if p = ''/d/ftp:/h/y.png'' then Some (Readable [0x89]) else None)
          ''/'' ''![f](ftp://h/y.png)'' ''/d/doc.md'') = 1
   \<and> skippedImages
       (convertMarkdownImages
          (\<lambda>p. if p = ''/d/ftp:/h/y.png'' then Some (Readable [0x89]) else None)
          ''/'' ''![f](ftp://h/y.png)'' ''/d/doc.md'') = 0
   \<and> content
       (convertMarkdownImages
          (\<lambda>p. if p = ''/d/ftp:/h/y.png'' then Some (Readable [0x89]) else None)
          ''/'' ''![f](ftp://h/y.png)'' ''/d/doc.md'')
     = ''![f](data:image/png;base64,iQ==)''"
  by (simp add: ftp_doc_value)

section \<open>Substituted occurrences\<close>

text \<open>
  C4. The replacement text \<open>![<alt>](<dataUri>)\<close> goes through
  \<open>String.prototype.replace\<close>, which reads \<open>$\<close> patterns in it. For the document
  \<open>![$$](./a.png)\<close>, whose alt text is \<open>$$\<close>, the rewritten occurrence has the alt
  text \<open>$\<close>: it is not the original alt text.
\<close>

theorem dollar_alt_text_rewritten:
  "map altText (findImages ''![$$](./a.png)'') = [''$$'']
   \<and> content
       (convertMarkdownImages (\<lambda>p. if p = ''/d/a.png'' then Some (Readable [0x89]) else None)
          ''/'' ''![$$](./a.png)'' ''/d/doc.md'')
     = ''![$](data:image/png;base64,iQ==)''"
  by code_simp

section \<open>Data URIs\<close>

text \<open>
  C7. For every supported extension there is a MIME type in the table such that, for
  every buffer (empty or not) and every path with that extension in any letter case,
  the codec's data URI is \<open>data:<mime>;base64,<payload>\<close>, and decoding the payload
  gives back the bytes. A file named \<open>image<ext>\<close> is such a path.
\<close>

theorem data_uri_round_trip:
  assumes ext: "ext \<in> set SUPPORTED_IMAGE_EXTENSIONS"
  shows "\<exists>mime. map_of MIME_TYPES ext = Some mime
           \<and> (\<forall>filePath. toLowerCase (extname filePath) = ext \<longrightarrow>
                 generateDataUriFromPath buf filePath
                   = Some (''data:'' @ mime @ '';base64,'' @ base64Encode buf))
           \<and> toLowerCase (extname (''image'' @ ext)) = ext
           \<and> generateDataUri buf mime = ''data:'' @ mime @ '';base64,'' @ base64Encode buf
           \<and> base64Decode (base64Encode buf) = Some buf"
proof -
  from supported_extension_has_mime[OF ext] obtain mime
    where mime: "map_of MIME_TYPES ext = Some mime" by blast
  have "generateDataUriFromPath buf filePath
               = Some (''data:'' @ mime @ '';base64,'' @ base64Encode buf)"
    if "toLowerCase (extname filePath) = ext" for filePath
    by (simp add: generateDataUriFromPath_def getImageMimeType_def that mime generateDataUri_def)
  moreover have "toLowerCase (extname (''image'' @ ext)) = ext"
    by (rule supported_extension_of_named_file[OF ext])
  moreover have "generateDataUri buf mime = ''data:'' @ mime @ '';base64,'' @ base64Encode buf"
    by (simp add: generateDataUri_def)
  moreover have "base64Decode (base64Encode buf) = Some buf"
    by (rule base64_roundtrip)
  ultimately show ?thesis using mime by blast
qed

theorem data_uri_round_trip_witness:
  "generateDataUriFromPath [0x89, 0x50, 0x4E, 0x47] ''/d/a.PNG''
     = Some ''data:image/png;base64,iVBORw==''
   \<and> base64Decode ''iVBORw=='' = Some [0x89, 0x50, 0x4E, 0x47]"
proof -
  have e: "''.png'' \<in> set SUPPORTED_IMAGE_EXTENSIONS"
    by (simp add: SUPPORTED_IMAGE_EXTENSIONS_def MIME_TYPES_def)
  have p: "toLowerCase (extname ''/d/a.PNG'') = ''.png''"
    by (simp add: toLowerCase_def lowerChar_def extname_def lastComponent_def)
  have m: "map_of MIME_TYPES ''.png'' = Some ''image/png''"
    by (simp add: MIME_TYPES_def)
  from data_uri_round_trip[OF e, of "[0x89, 0x50, 0x4E, 0x47]"] p
  show ?thesis
    unfolding png_header_base64 m by auto
qed

section \<open>Query strings and fragments\<close>

text \<open>
  C8, as the code has it. The format check looks at the cleaned path, the codec gets
  the path as written: the codec is asked about the path resolved from the uncleaned
  text and about nothing else. When no readable file has that uncleaned name, the
  reference is skipped with the warning
  \<open>Failed to convert image: <path> - Image file not found or not readable: <resolved path>\<close>
  and \<open>convertedImages\<close> stays as it was, whether or not a file exists at the cleaned
  path.
\<close>

theorem suffixed_reference_not_found:
  assumes local: "\<not> isRemoteImage (imagePath m)"
      and supported: "isSupportedImageFormat (imagePath m)"
      and suffixed: "cleanImagePath (imagePath m) \<noteq> imagePath m"
      and target: "target = (if isAbsolute (imagePath m) then imagePath m
                            else resolve cwd dir (imagePath m))"
      and missing: "fs target = None"
  shows "processImage (\<lambda>p. Inr (convertImageToBase64 fs p)) cwd dir m (c, r)
           = (c, skipWithWarning
                   (''Failed to convert image: '' @ imagePath m
                      @ '' - Image file not found or not readable: '' @ target)
                   r)
       \<and> convertedImages
            (snd (processImage (\<lambda>p. Inr (convertImageToBase64 fs p)) cwd dir m (c, r)))
           = convertedImages r
       \<and> (\<forall>cv cv'. cv target = cv' target \<longrightarrow>
             processImage cv cwd dir m (c, r) = processImage cv' cwd dir m (c, r))"
proof -
  let ?abs = "if isAbsolute (imagePath m) then imagePath m else resolve cwd dir (imagePath m)"
  let ?cr = "failed (''Image file not found or not readable: '' @ target)"
  have conv: "convertImageToBase64 fs target = ?cr"
    using missing by (simp add: convertImageToBase64_def fileExists_def)
  have called: "(\<lambda>p. Inr (convertImageToBase64 fs p)) ?abs = Inr ?cr"
    by (simp only: target[symmetric] conv)
  have nouri: "dataUri ?cr = None \<or> dataUri ?cr = Some [] \<or> \<not> success ?cr"
    by (simp add: failed_def)
  have step: "processImage (\<lambda>p. Inr (convertImageToBase64 fs p)) cwd dir m (c, r)
           = (c, skipWithWarning
                   (''Failed to convert image: '' @ imagePath m
                      @ '' - Image file not found or not readable: '' @ target)
                   r)"
    using processImage_codec_failed[where cv = "\<lambda>p. Inr (convertImageToBase64 fs p)"
        and c = c and r = r, OF local supported called nouri]
    by (simp add: failed_def)
  have same: "processImage cv cwd dir m (c, r) = processImage cv' cwd dir m (c, r)"
    if eq: "cv target = cv' target" for cv cv'
  proof (cases "cv target")
    case (Inl e)
    with eq have Inl': "cv' target = Inl e" by simp
    have a: "cv ?abs = Inl e" by (simp only: target[symmetric] Inl)
    have b: "cv' ?abs = Inl e" by (simp only: target[symmetric] Inl')
    show ?thesis
      by (simp only: processImage_codec_throws[where cv = cv, OF local supported a]
          processImage_codec_throws[where cv = cv', OF local supported b])
  next
    case (Inr cr)
    with eq have Inr': "cv' target = Inr cr" by simp
    have a: "cv ?abs = Inr cr" by (simp only: target[symmetric] Inr)
    have b: "cv' ?abs = Inr cr" by (simp only: target[symmetric] Inr')
    show ?thesis
    proof (cases "dataUri cr = None \<or> dataUri cr = Some [] \<or> \<not> success cr")
      case True
      show ?thesis
        by (simp only: processImage_codec_failed[where cv = cv, OF local supported a True]
            processImage_codec_failed[where cv = cv', OF local supported b True])
    next
      case False
      then obtain uri where u: "dataUri cr = Some uri" "success cr" "uri \<noteq> []" by auto
      show ?thesis
        by (simp only: processImage_converted[where cv = cv, OF local supported a u]
            processImage_converted[where cv = cv', OF local supported b u])
    qed
  qed
  have kept: "convertedImages
            (snd (processImage (\<lambda>p. Inr (convertImageToBase64 fs p)) cwd dir m (c, r)))
           = convertedImages r"
    by (simp only: step snd_conv skipWithWarning_simps)
  from step kept same show ?thesis by blast
qed

theorem suffixed_reference_not_found_witness:
  "processImage
       (\<lambda>p. Inr (convertImageToBase64
                   (\<lambda>p. if p = ''/d/img.png'' then Some (Readable [0x89]) else None) p))
       ''/'' ''/d''
       \<lparr>originalMarkdown = ''![a](./img.png?v=1)'', altText = ''a'',
          imagePath = ''./img.png?v=1''\<rparr>
       (''![a](./img.png?v=1)'',
        \<lparr>convertedImages = 0, skippedImages = 0, warnings = [], errors = [],
           content = ''![a](./img.png?v=1)''\<rparr>)
     = (''![a](./img.png?v=1)'',
        \<lparr>convertedImages = 0, skippedImages = 1,
           warnings = [''Failed to convert image: ./img.png?v=1 - Image file not found or not readable: /d/img.png?v=1''],
           errors = [], content = ''![a](./img.png?v=1)''\<rparr>)
   \<and> cleanImagePath ''./img.png?v=1'' = ''./img.png''
   \<and> success (convertImageToBase64
        (\<lambda>p. if p = ''/d/img.png'' then Some (Readable [0x89]) else None) ''/d/img.png'')"
proof -
  let ?fs = "\<lambda>p. if p = ''/d/img.png'' then Some (Readable [0x89::byte]) else None"
  let ?m = "\<lparr>originalMarkdown = ''![a](./img.png?v=1)'', altText = ''a'',
              imagePath = ''./img.png?v=1''\<rparr>"
  let ?r = "\<lparr>convertedImages = 0, skippedImages = 0, warnings = [], errors = [],
              content = ''![a](./img.png?v=1)''\<rparr>"
  have h1: "\<not> isRemoteImage (imagePath ?m)"
    by (simp add: isRemoteImage_def)
  have h2: "isSupportedImageFormat (imagePath ?m)"
    by code_simp
  have cl: "cleanImagePath ''./img.png?v=1'' = ''./img.png''"
    by (simp add: cleanImagePath_def)
  have h3: "cleanImagePath (imagePath ?m) \<noteq> imagePath ?m"
    by (simp add: cl)
  have h4: "''/d/img.png?v=1'' = (if isAbsolute (imagePath ?m) then imagePath ?m
                                  else resolve ''/'' ''/d'' (imagePath ?m))"
    by code_simp
  have h5: "?fs ''/d/img.png?v=1'' = None"
    by simp
  have ok: "success (convertImageToBase64 ?fs ''/d/img.png'')"
    by code_simp
  from suffixed_reference_not_found[where m = ?m and fs = ?fs and cwd = "''/''"
      and dir = "''/d''" and target = "''/d/img.png?v=1''"
      and c = "''![a](./img.png?v=1)''" and r = ?r, OF h1 h2 h3 h4 h5]
  have "processImage (\<lambda>p. Inr (convertImageToBase64 ?fs p)) ''/'' ''/d'' ?m
          (''![a](./img.png?v=1)'', ?r)
     = (''![a](./img.png?v=1)'',
        \<lparr>convertedImages = 0, skippedImages = 1,
           warnings = [''Failed to convert image: ./img.png?v=1 - Image file not found or not readable: /d/img.png?v=1''],
           errors = [], content = ''![a](./img.png?v=1)''\<rparr>)"
    by (simp add: skipWithWarning_def)
  with cl ok show ?thesis by blast
qed

text \<open>
  C8 as stated fails when a file has the uncleaned name itself: \<open>./img.png?v=1.png\<close>
  passes the format check as \<open>./img.png\<close>, the file \<open>/d/img.png?v=1.png\<close> exists and
  has the extension \<open>.png\<close>, and the reference is converted.
\<close>

theorem suffixed_reference_converted:
  "cleanImagePath ''./img.png?v=1.png'' = ''./img.png''
   \<and> convertedImages
       (convertMarkdownImages
          (\<lambda>p. if p = ''/d/img.png?v=1.png'' then Some (Readable [0x89]) else None)
          ''/'' ''![a](./img.png?v=1.png)'' ''/d/doc.md'') = 1
   \<and> warnings
       (convertMarkdownImages
          (\<lambda>p. if p = ''/d/img.png?v=1.png'' then Some (Readable [0x89]) else None)
          ''/'' ''![a](./img.png?v=1.png)'' ''/d/doc.md'') = []"
  by code_simp

section \<open>Formats the rewriter accepts\<close>

lemma ico_not_accepted:
  assumes "suffix ''.ico'' s"
  shows "\<not> list_ex (\<lambda>ext. suffix ext s) supportedExtensions"
proof -
  have "\<not> suffix e s" if "e \<in> set supportedExtensions" for e
  proof
    assume "suffix e s"
    from suffix_same_cases[OF assms this] that show False
      by (auto simp: supportedExtensions_def suffix_to_prefix)
  qed
  then show ?thesis by (simp add: list_ex_iff)
qed

lemma tiff_not_accepted:
  assumes "suffix ''.tiff'' s"
  shows "\<not> list_ex (\<lambda>ext. suffix ext s) supportedExtensions"
proof -
  have "\<not> suffix e s" if "e \<in> set supportedExtensions" for e
  proof
    assume "suffix e s"
    from suffix_same_cases[OF assms this] that show False
      by (auto simp: supportedExtensions_def suffix_to_prefix)
  qed
  then show ?thesis by (simp add: list_ex_iff)
qed

lemma tif_not_accepted:
  assumes "suffix ''.tif'' s"
  shows "\<not> list_ex (\<lambda>ext. suffix ext s) supportedExtensions"
proof -
  have "\<not> suffix e s" if "e \<in> set supportedExtensions" for e
  proof
    assume "suffix e s"
    from suffix_same_cases[OF assms this] that show False
      by (auto simp: supportedExtensions_def suffix_to_prefix)
  qed
  then show ?thesis by (simp add: list_ex_iff)
qed

text \<open>
  C9. A local reference whose cleaned path, in lower case, ends in \<open>.ico\<close>, \<open>.tiff\<close>
  or \<open>.tif\<close> is skipped by the rewriter as an unsupported format (one more skipped
  image, the warning \<open>Skipped unsupported image format: <path>\<close>, the text unchanged),
  and the codec is not asked. The codec's table has the three extensions, and it encodes
  a readable file whose extension is one of them. The rewriter accepts exactly the
  paths whose cleaned lower-case form ends in one of \<open>.jpg\<close>, \<open>.jpeg\<close>, \<open>.png\<close>,
  \<open>.gif\<close>, \<open>.svg\<close>, \<open>.webp\<close>, \<open>.bmp\<close>.
\<close>

theorem ico_tiff_skipped_by_rewriter:
  assumes local: "\<not> isRemoteImage (imagePath m)"
      and ext: "suffix ''.ico'' (toLowerCase (cleanImagePath (imagePath m)))
                \<or> suffix ''.tiff'' (toLowerCase (cleanImagePath (imagePath m)))
                \<or> suffix ''.tif'' (toLowerCase (cleanImagePath (imagePath m)))"
  shows "processImage cv cwd dir m (c, r)
           = (c, skipWithWarning (''Skipped unsupported image format: '' @ imagePath m) r)
       \<and> {''.ico'', ''.tiff'', ''.tif''} \<subseteq> set SUPPORTED_IMAGE_EXTENSIONS
       \<and> (\<forall>p buf. fs p = Some (Readable buf)
              \<and> toLowerCase (extname p) \<in> {''.ico'', ''.tiff'', ''.tif''} \<longrightarrow>
            convertImageToBase64 fs p
              = \<lparr>success = True,
                 dataUri = Some (''data:''
                   @ (if toLowerCase (extname p) = ''.ico'' then ''image/x-icon'' else ''image/tiff'')
                   @ '';base64,'' @ base64Encode buf),
                 error = None\<rparr>)
       \<and> (\<forall>p. isSupportedImageFormat p \<longleftrightarrow>
              (\<exists>e \<in> {''.jpg'', ''.jpeg'', ''.png'', ''.gif'', ''.svg'', ''.webp'', ''.bmp''}.
                 suffix e (toLowerCase (cleanImagePath p))))"
proof -
  from ext have "\<not> isSupportedImageFormat (imagePath m)"
    unfolding isSupportedImageFormat_def Let_def
    using ico_not_accepted tiff_not_accepted tif_not_accepted by blast
  with local have skip: "processImage cv cwd dir m (c, r)
           = (c, skipWithWarning (''Skipped unsupported image format: '' @ imagePath m) r)"
    by (rule processImage_unsupported)
  have inc: "{''.ico'', ''.tiff'', ''.tif''} \<subseteq> set SUPPORTED_IMAGE_EXTENSIONS"
    by (simp add: SUPPORTED_IMAGE_EXTENSIONS_def MIME_TYPES_def)
  have enc: "convertImageToBase64 fs p
              = \<lparr>success = True,
                 dataUri = Some (''data:''
                   @ (if toLowerCase (extname p) = ''.ico'' then ''image/x-icon'' else ''image/tiff'')
                   @ '';base64,'' @ base64Encode buf),
                 error = None\<rparr>"
    if "fs p = Some (Readable buf)"
      and "toLowerCase (extname p) \<in> {''.ico'', ''.tiff'', ''.tif''}" for p buf
  proof -
    from that(2) have "map_of MIME_TYPES (toLowerCase (extname p))
        = Some (if toLowerCase (extname p) = ''.ico'' then ''image/x-icon'' else ''image/tiff'')"
      by (auto simp: MIME_TYPES_def)
    from codec_encodes_readable[where fs = fs, OF that(1) this] show ?thesis .
  qed
  have acc: "isSupportedImageFormat p \<longleftrightarrow>
              (\<exists>e \<in> {''.jpg'', ''.jpeg'', ''.png'', ''.gif'', ''.svg'', ''.webp'', ''.bmp''}.
                 suffix e (toLowerCase (cleanImagePath p)))" for p
    by (simp add: isSupportedImageFormat_def Let_def supportedExtensions_def)
  from skip inc enc acc show ?thesis by blast
qed

theorem ico_tiff_skipped_by_rewriter_witness:
  "processImage
       (\<lambda>p. Inr (convertImageToBase64
                   (\<lambda>p. if p = ''/d/logo.ICO'' then Some (Readable [0]) else None) p))
       ''/'' ''/d''
       \<lparr>originalMarkdown = ''![i](./logo.ICO)'', altText = ''i'', imagePath = ''./logo.ICO''\<rparr>
       (''![i](./logo.ICO)'',
        \<lparr>convertedImages = 0, skippedImages = 0, warnings = [], errors = [],
           content = ''![i](./logo.ICO)''\<rparr>)
     = (''![i](./logo.ICO)'',
        \<lparr>convertedImages = 0, skippedImages = 1,
           warnings = [''Skipped unsupported image format: ./logo.ICO''], errors = [],
           content = ''![i](./logo.ICO)''\<rparr>)
   \<and> convertImageToBase64 (\<lambda>p. if p = ''/d/logo.ICO'' then Some (Readable [0]) else None)
       ''/d/logo.ICO''
     = \<lparr>success = True, dataUri = Some ''data:image/x-icon;base64,AA=='', error = None\<rparr>"
proof -
  let ?fs = "\<lambda>p. if p = ''/d/logo.ICO'' then Some (Readable [0::byte]) else None"
  let ?m = "\<lparr>originalMarkdown = ''![i](./logo.ICO)'', altText = ''i'',
              imagePath = ''./logo.ICO''\<rparr>"
  let ?r = "\<lparr>convertedImages = 0, skippedImages = 0, warnings = [], errors = [],
              content = ''![i](./logo.ICO)''\<rparr>"
  have h1: "\<not> isRemoteImage (imagePath ?m)"
    by (simp add: isRemoteImage_def)
  have h2: "suffix ''.ico'' (toLowerCase (cleanImagePath (imagePath ?m)))
            \<or> suffix ''.tiff'' (toLowerCase (cleanImagePath (imagePath ?m)))
            \<or> suffix ''.tif'' (toLowerCase (cleanImagePath (imagePath ?m)))"
    by (simp add: cleanImagePath_def toLowerCase_def lowerChar_def suffix_to_prefix)
  note t = ico_tiff_skipped_by_rewriter[where m = ?m and fs = ?fs
      and cv = "\<lambda>p. Inr (convertImageToBase64 ?fs p)" and cwd = "''/''" and dir = "''/d''"
      and c = "''![i](./logo.ICO)''" and r = ?r, OF h1 h2]
  have e: "toLowerCase (extname ''/d/logo.ICO'') = ''.ico''"
    by (simp add: toLowerCase_def lowerChar_def extname_def lastComponent_def)
  have z: "base64Encode [0] = ''AA==''"
    by code_simp
  from t have a: "processImage (\<lambda>p. Inr (convertImageToBase64 ?fs p)) ''/'' ''/d'' ?m
                    (''![i](./logo.ICO)'', ?r)
     = (''![i](./logo.ICO)'',
        \<lparr>convertedImages = 0, skippedImages = 1,
           warnings = [''Skipped unsupported image format: ./logo.ICO''], errors = [],
           content = ''![i](./logo.ICO)''\<rparr>)"
    by (simp add: skipWithWarning_def)
  from t have "?fs ''/d/logo.ICO'' = Some (Readable [0])
              \<and> toLowerCase (extname ''/d/logo.ICO'') \<in> {''.ico'', ''.tiff'', ''.tif''} \<longrightarrow>
            convertImageToBase64 ?fs ''/d/logo.ICO''
              = \<lparr>success = True,
                 dataUri = Some (''data:''
                   @ (if toLowerCase (extname ''/d/logo.ICO'') = ''.ico'' then ''image/x-icon''
                      else ''image/tiff'')
                   @ '';base64,'' @ base64Encode [0]),
                 error = None\<rparr>"
    by blast
  then have b: "convertImageToBase64 ?fs ''/d/logo.ICO''
     = \<lparr>success = True, dataUri = Some ''data:image/x-icon;base64,AA=='', error = None\<rparr>"
    unfolding e z by simp
  from a b show ?thesis by blast
qed

end
